theory Spec2Isabelle
  imports Main "HOL-Library.Char_ord" "HOL-Library.List_Lexorder"
begin

section \<open>Python values\<close>

text \<open>
  The values that travel through the request signer and the sync engine are decoded JSON
  documents: \<open>None\<close>, booleans, integers, strings, lists and dictionaries with string keys.
  A dictionary keeps its entries in insertion order, so it is an association list; a
  well-formed dictionary has no key twice. Strings are byte strings in UTF-8, whose
  lexicographic order is the order of the code points that Python compares; the length of a
  string and the walk through it count bytes, which are the characters of ASCII text.
  Floating point numbers are left out.
\<close>

datatype json =
    JNull
  | JBool bool
  | JInt int
  | JStr string
  | JList "json list"
  | JDict "(string \<times> json) list"

type_synonym pydict = "(string \<times> json) list"

datatype error =
    AttributeError
  | TypeError
  | ValueError
  | KeyError
  | IndexError
  | OverflowError
  | OSError
  | InvalidOperation
  | IntegrityError
  | TransportError
  | HTTPStatusError
  | JSONDecodeError

text \<open>\<open>bool(v)\<close>: what \<open>if v\<close>, \<open>not v\<close> and \<open>a or b\<close> test.\<close>

fun truthy :: "json \<Rightarrow> bool" where
  "truthy JNull = False"
| "truthy (JBool b) = b"
| "truthy (JInt n) = (n \<noteq> 0)"
| "truthy (JStr s) = (s \<noteq> [])"
| "truthy (JList xs) = (xs \<noteq> [])"
| "truthy (JDict d) = (d \<noteq> [])"

text \<open>\<open>a or b\<close>\<close>

definition py_or :: "json \<Rightarrow> json \<Rightarrow> json" where
  "py_or a b = (if truthy a then a else b)"

subsection \<open>Dictionaries\<close>

text \<open>\<open>d.get(k)\<close> with \<open>None\<close> for a missing key, and \<open>d.get(k, default)\<close>.\<close>

definition dict_get :: "('k \<times> 'v) list \<Rightarrow> 'k \<Rightarrow> 'v option" where
  "dict_get d k = map_of d k"

definition get_none :: "pydict \<Rightarrow> string \<Rightarrow> json" where
  "get_none d k = (case dict_get d k of None \<Rightarrow> JNull | Some v \<Rightarrow> v)"

definition get_default :: "pydict \<Rightarrow> string \<Rightarrow> json \<Rightarrow> json" where
  "get_default d k dflt = (case dict_get d k of None \<Rightarrow> dflt | Some v \<Rightarrow> v)"

text \<open>\<open>d.pop(k, None)\<close>, keeping only the dictionary.\<close>

definition dict_pop :: "('k \<times> 'v) list \<Rightarrow> 'k \<Rightarrow> ('k \<times> 'v) list" where
  "dict_pop d k = filter (\<lambda>kv. fst kv \<noteq> k) d"

text \<open>\<open>d[k] = v\<close>: an existing key keeps its place, a new key goes last.\<close>

fun dict_set :: "('k \<times> 'v) list \<Rightarrow> 'k \<Rightarrow> 'v \<Rightarrow> ('k \<times> 'v) list" where
  "dict_set [] k v = [(k, v)]"
| "dict_set ((k', v') # d) k v =
     (if k' = k then (k, v) # d else (k', v') # dict_set d k v)"

text \<open>The attribute access \<open>v.get\<close> exists on dictionaries only.\<close>

definition as_dict :: "json \<Rightarrow> error + pydict" where
  "as_dict v = (case v of JDict d \<Rightarrow> Inr d | _ \<Rightarrow> Inl AttributeError)"

subsection \<open>\<open>str\<close>\<close>

function str_of_nat :: "nat \<Rightarrow> string" where
  "str_of_nat n =
     (if n < 10 then [char_of (48 + n)]
      else str_of_nat (n div 10) @ [char_of (48 + n mod 10)])"
  by pat_completeness auto
termination
  by (relation "measure id") auto

declare str_of_nat.simps [simp del]

definition str_of_int :: "int \<Rightarrow> string" where
  "str_of_int i = (if i < 0 then CHR ''-'' # str_of_nat (nat (- i)) else str_of_nat (nat i))"

text \<open>
  The values of the columns of a stored row: a JSON value, a \<open>datetime\<close> (counted in whole
  seconds, the zone of the server taken to be UTC) or a \<open>Decimal\<close> (kept as the text it
  was made from).
\<close>

datatype colval = CJson json | CDatetime int | CDecimal string

text \<open>
  The collaborators from Python's library, taken as they are:
  \<^item> \<open>hmac_sha256_hex key msg\<close> is \<open>hmac.new(key, msg, hashlib.sha256).hexdigest()\<close>;
  \<^item> \<open>json_dumps v\<close> is \<open>json.dumps(v, separators=(',', ':'), sort_keys=True)\<close>;
  \<^item> \<open>py_repr v\<close> is \<open>str(v)\<close> on a list or a dictionary;
  \<^item> \<open>timestamp_error n\<close> is the exception that \<open>datetime.fromtimestamp(n)\<close> raises for a
    number of seconds out of its range (\<open>OverflowError\<close>, \<open>OSError\<close> or \<open>ValueError\<close>), \<open>None\<close>
    for a number within it;
  \<^item> \<open>decimal_ok s\<close> says that \<open>Decimal(s)\<close> accepts the string \<open>s\<close>;
  \<^item> \<open>decimal_is_zero s\<close> says that \<open>Decimal(s)\<close> is zero, hence false as a condition;
  \<^item> \<open>fromisoformat s\<close> is \<open>datetime.fromisoformat(s)\<close>, \<open>None\<close> when it raises;
  \<^item> \<open>py_gt a b\<close> is \<open>a > b\<close> on two values that are not both \<open>datetime\<close>s, \<open>None\<close>
    when the comparison raises.
\<close>

record pylib =
  hmac_sha256_hex :: "string \<Rightarrow> string \<Rightarrow> string"
  json_dumps :: "json \<Rightarrow> string"
  py_repr :: "json \<Rightarrow> string"
  timestamp_error :: "int \<Rightarrow> error option"
  decimal_ok :: "string \<Rightarrow> bool"
  decimal_is_zero :: "string \<Rightarrow> bool"
  fromisoformat :: "string \<Rightarrow> int option"
  py_gt :: "colval \<Rightarrow> colval \<Rightarrow> bool option"

definition py_str :: "pylib \<Rightarrow> json \<Rightarrow> string" where
  "py_str lib v =
     (case v of
        JNull \<Rightarrow> ''None''
      | JBool b \<Rightarrow> (if b then ''True'' else ''False'')
      | JInt n \<Rightarrow> str_of_int n
      | JStr s \<Rightarrow> s
      | _ \<Rightarrow> py_repr lib v)"

section \<open>The request signer (app/services/tiktok\_client.py)\<close>

record settings =
  tiktok_app_key :: string
  tiktok_app_secret :: string
  tiktok_shop_cipher :: "string option"
  tiktok_shop_id :: "string option"
  tiktok_access_token :: "string option"
  tiktok_api_base_url :: string

record TikTokShopClient =
  access_token :: string
  app_key :: string
  app_secret :: string
  base_url :: string
  shop_cipher :: string
  shop_id :: string

text \<open>\<open>s or ''\<close> for an optional string.\<close>

definition or_empty :: "string option \<Rightarrow> string" where
  "or_empty s = (case s of None \<Rightarrow> [] | Some t \<Rightarrow> t)"

text \<open>\<open>TikTokShopClient.__init__\<close>\<close>

definition init_client :: "settings \<Rightarrow> string option \<Rightarrow> TikTokShopClient" where
  "init_client cfg tok =
     \<lparr> access_token =
         (if or_empty tok \<noteq> [] then or_empty tok else or_empty (tiktok_access_token cfg)),
       app_key = tiktok_app_key cfg,
       app_secret = tiktok_app_secret cfg,
       base_url = tiktok_api_base_url cfg,
       shop_cipher = or_empty (tiktok_shop_cipher cfg),
       shop_id = or_empty (tiktok_shop_id cfg) \<rparr>"

text \<open>
  Dictionaries are objects: a variable holds a reference, and \<open>params.copy()\<close> makes a new
  object. The heap is the list of the dictionary objects made so far, a reference is an
  index into it.
\<close>

type_synonym heap = "pydict list"

definition heap_copy :: "heap \<Rightarrow> nat \<Rightarrow> nat \<times> heap" where
  "heap_copy h r = (length h, h @ [h ! r])"

text \<open>
  \<open>_generate_signature(self, path, params, body)\<close>, with \<open>now\<close> the value of
  \<open>int(time.time())\<close>. The caller's dictionary is the object at \<open>params\<close>, which is a
  reference of the heap (\<open>params < length h\<close>). The result is the pair
  \<open>(signature, timestamp)\<close> and the heap after the call.
\<close>

definition generate_signature ::
  "pylib \<Rightarrow> TikTokShopClient \<Rightarrow> int \<Rightarrow> string \<Rightarrow> nat \<Rightarrow> string \<Rightarrow> heap
     \<Rightarrow> (string \<times> string) \<times> heap" where
  "generate_signature lib self now path params body h =
     (let timestamp = str_of_int now;
          (params_for_sign, h1) = heap_copy h params;
          h2 = h1[params_for_sign := dict_pop (h1 ! params_for_sign) ''sign''];
          h3 = h2[params_for_sign := dict_pop (h2 ! params_for_sign) ''timestamp''];
          h4 = h3[params_for_sign :=
                    dict_set (h3 ! params_for_sign) ''timestamp'' (JStr timestamp)];
          sorted_params = sort_key fst (h4 ! params_for_sign);
          param_str = concat (map (\<lambda>(k, v). k @ py_str lib v) sorted_params);
          string_to_sign = path @ param_str @ body;
          wrapped_string = app_secret self @ string_to_sign @ app_secret self;
          signature = hmac_sha256_hex lib (app_secret self) wrapped_string
      in ((signature, timestamp), h4))"

text \<open>
  \<open>_make_request(self, method, path, params, body)\<close>. The part before the request is
  sent: the body string that is signed, the signature, and the parameters, headers and URL
  that go out. \<open>params\<close> and \<open>body\<close> are \<open>None\<close> or a value. The caller's dictionary is
  the one object that \<open>_generate_signature\<close> is handed, at reference 0 of a heap of its own.
\<close>

record http_request =
  req_method :: string
  req_url :: string
  req_params :: pydict
  req_json :: "json option"
  req_headers :: "(string \<times> string) list"

record http_response =
  status_code :: nat
  json_body :: "json option"

definition body_str :: "pylib \<Rightarrow> string \<Rightarrow> json option \<Rightarrow> string" where
  "body_str lib method body =
     (if method = ''POST'' then
        (case body of
           None \<Rightarrow> ''{}''
         | Some b \<Rightarrow> (if b = JDict [] then ''{}'' else json_dumps lib b))
      else [])"

definition build_request ::
  "pylib \<Rightarrow> TikTokShopClient \<Rightarrow> int \<Rightarrow> string \<Rightarrow> string \<Rightarrow> pydict option
     \<Rightarrow> json option \<Rightarrow> http_request" where
  "build_request lib self now method path params body =
     (let params0 = (case params of None \<Rightarrow> [] | Some d \<Rightarrow> d);
          params1 = dict_set params0 ''app_key'' (JStr (app_key self));
          ((signature, timestamp), h) =
             generate_signature lib self now path 0 (body_str lib method body) [params1];
          params2 = dict_set (h ! 0) ''sign'' (JStr signature);
          params3 = dict_set params2 ''timestamp'' (JStr timestamp);
          params4 = (if access_token self \<noteq> []
                     then dict_set params3 ''access_token'' (JStr (access_token self))
                     else params3);
          headers = [(''Content-Type'', ''application/json''),
                     (''x-tts-access-token'', access_token self)]
      in \<lparr> req_method = method, req_url = base_url self @ path, req_params = params4,
           req_json = (if method = ''POST'' then body else None), req_headers = headers \<rparr>)"

text \<open>
  The rest of \<open>_make_request\<close>. \<open>send\<close> is the HTTP exchange, \<open>Inl\<close> when the transport
  raises. \<open>response.raise_for_status()\<close> raises outside the 2xx range, \<open>response.json()\<close>
  when the body is no JSON document. The result comes with the requests that went out.
\<close>

definition read_response :: "http_response \<Rightarrow> error + json" where
  "read_response resp =
     (if \<not> (200 \<le> status_code resp \<and> status_code resp < 300) then Inl HTTPStatusError
      else (case json_body resp of None \<Rightarrow> Inl JSONDecodeError | Some j \<Rightarrow> Inr j))"

text \<open>What \<open>_make_request\<close> returns or raises for the outcome of the exchange.\<close>

definition received :: "error + http_response \<Rightarrow> error + json" where
  "received r = (case r of Inl e \<Rightarrow> Inl e | Inr resp \<Rightarrow> read_response resp)"

definition make_request ::
  "pylib \<Rightarrow> TikTokShopClient \<Rightarrow> (http_request \<Rightarrow> error + http_response) \<Rightarrow> int \<Rightarrow> string
     \<Rightarrow> string \<Rightarrow> pydict option \<Rightarrow> json option \<Rightarrow> (error + json) \<times> http_request list" where
  "make_request lib self send now method path params body =
     (let req = build_request lib self now method path params body
      in if method = ''GET'' \<or> method = ''POST'' then (received (send req), [req])
         else (Inl ValueError, []))"

text \<open>
  The time arguments of \<open>get_orders\<close> are declared as \<open>datetime\<close>; the sync pass hands it
  integers. Both are values of \<open>pytime\<close>; a \<open>datetime\<close> is counted in whole seconds.
\<close>

datatype pytime = Datetime int | IntValue int

fun truthy_time :: "pytime option \<Rightarrow> bool" where
  "truthy_time None = False"
| "truthy_time (Some (Datetime t)) = True"
| "truthy_time (Some (IntValue n)) = (n \<noteq> 0)"

text \<open>\<open>int(t.timestamp())\<close>: only a \<open>datetime\<close> has the method.\<close>

fun int_timestamp :: "pytime option \<Rightarrow> error + int" where
  "int_timestamp (Some (Datetime t)) = Inr t"
| "int_timestamp _ = Inl AttributeError"

text \<open>
  \<open>get_orders(self, start_time, end_time, page_size, page_token, order_status,
  sort_field, sort_order)\<close> in three parts: the date filter of the request body (lines 225
  to 230), the query parameters (lines 237 to 252), and the call of \<open>_make_request\<close>.
\<close>

definition date_filter :: "pytime option \<Rightarrow> pytime option \<Rightarrow> error + pydict" where
  "date_filter start_time end_time =
     (if truthy_time start_time \<and> truthy_time end_time
      then (case int_timestamp start_time of
              Inl e \<Rightarrow> Inl e
            | Inr t_from \<Rightarrow>
                (case int_timestamp end_time of
                   Inl e \<Rightarrow> Inl e
                 | Inr t_to \<Rightarrow>
                     Inr [(''create_time_from'', JInt t_from), (''create_time_to'', JInt t_to)]))
      else Inr [])"

definition orders_query ::
  "TikTokShopClient \<Rightarrow> int \<Rightarrow> json \<Rightarrow> string \<Rightarrow> string \<Rightarrow> pydict" where
  "orders_query self page_size page_token sort_field sort_order =
     (let params0 = [(''page_size'', JInt (min page_size 50)),
                     (''version'', JStr ''202309''),
                     (''sort_field'', JStr sort_field),
                     (''sort_order'', JStr sort_order)];
          params1 = (if truthy page_token
                     then dict_set params0 ''page_token'' page_token else params0);
          params2 = (if shop_cipher self \<noteq> []
                     then dict_set params1 ''shop_cipher'' (JStr (shop_cipher self))
                     else params1)
      in if shop_id self \<noteq> []
         then dict_set params2 ''shop_id'' (JStr (shop_id self))
         else params2)"

definition get_orders ::
  "pylib \<Rightarrow> TikTokShopClient \<Rightarrow> (http_request \<Rightarrow> error + http_response) \<Rightarrow> int
     \<Rightarrow> pytime option \<Rightarrow> pytime option \<Rightarrow> int \<Rightarrow> json \<Rightarrow> string option \<Rightarrow> string \<Rightarrow> string
     \<Rightarrow> (error + json) \<times> http_request list" where
  "get_orders lib self send now start_time end_time page_size page_token order_status
       sort_field sort_order =
     (case date_filter start_time end_time of
        Inl e \<Rightarrow> (Inl e, [])
      | Inr body0 \<Rightarrow>
          (let request_body =
                 (if or_empty order_status \<noteq> []
                  then dict_set body0 ''order_status'' (JStr (or_empty order_status))
                  else body0)
           in make_request lib self send now ''POST'' ''/order/202309/orders/search''
                (Some (orders_query self page_size page_token sort_field sort_order))
                (Some (JDict request_body))))"

text \<open>
  The value of the local variable \<open>params_for_sign\<close> of \<open>_generate_signature\<close> when it is
  sorted, as a function of the caller's dictionary.
\<close>

definition params_for_sign :: "int \<Rightarrow> pydict \<Rightarrow> pydict" where
  "params_for_sign now d =
     dict_set (dict_pop (dict_pop d ''sign'') ''timestamp'') ''timestamp''
       (JStr (str_of_int now))"

subsection \<open>The signature as the specification words it\<close>

text \<open>
  The parameters are a finite mapping from keys to values. The parameter string is the
  concatenation, over the keys in ascending order, of the key followed by the stringified
  value; the string to sign is path, parameter string and body; it is wrapped in the secret
  on both sides and put through HMAC-SHA256 keyed by the secret, in hexadecimal.
\<close>

definition spec_param_string :: "pylib \<Rightarrow> (string \<rightharpoonup> json) \<Rightarrow> string" where
  "spec_param_string lib m =
     concat (map (\<lambda>k. k @ py_str lib (the (m k))) (sorted_list_of_set (dom m)))"

definition spec_signature ::
  "pylib \<Rightarrow> string \<Rightarrow> string \<Rightarrow> (string \<rightharpoonup> json) \<Rightarrow> string \<Rightarrow> string" where
  "spec_signature lib secret path m body =
     hmac_sha256_hex lib secret (secret @ (path @ spec_param_string lib m @ body) @ secret)"

section \<open>The transformer (app/services/data\_transformer.py)\<close>

type_synonym order_data = "(string \<times> colval) list"

text \<open>\<open>len(v)\<close>\<close>

definition py_len :: "json \<Rightarrow> error + nat" where
  "py_len v =
     (case v of
        JStr s \<Rightarrow> Inr (length s)
      | JList xs \<Rightarrow> Inr (length xs)
      | JDict d \<Rightarrow> Inr (length d)
      | _ \<Rightarrow> Inl TypeError)"

text \<open>
  \<open>datetime.fromtimestamp(v)\<close>: a number is needed, and a boolean is one; a number out of
  range raises.
\<close>

definition seconds_to_datetime :: "pylib \<Rightarrow> int \<Rightarrow> error + colval" where
  "seconds_to_datetime lib n =
     (case timestamp_error lib n of None \<Rightarrow> Inr (CDatetime n) | Some e \<Rightarrow> Inl e)"

definition fromtimestamp :: "pylib \<Rightarrow> json \<Rightarrow> error + colval" where
  "fromtimestamp lib v =
     (case v of
        JInt n \<Rightarrow> seconds_to_datetime lib n
      | JBool b \<Rightarrow> seconds_to_datetime lib (if b then 1 else 0)
      | _ \<Rightarrow> Inl TypeError)"

text \<open>\<open>datetime.fromtimestamp(raw_order[k]) if raw_order.get(k) else None\<close>\<close>

definition optional_time :: "pylib \<Rightarrow> pydict \<Rightarrow> string \<Rightarrow> error + colval" where
  "optional_time lib raw k =
     (if truthy (get_none raw k) then fromtimestamp lib (get_none raw k)
      else Inr (CJson JNull))"

text \<open>\<open>Decimal(str(v))\<close>\<close>

definition to_decimal :: "pylib \<Rightarrow> json \<Rightarrow> error + colval" where
  "to_decimal lib v =
     (if decimal_ok lib (py_str lib v) then Inr (CDecimal (py_str lib v))
      else Inl InvalidOperation)"

text \<open>\<open>DataTransformer.transform_order(raw_order)\<close>\<close>

definition transform_order :: "pylib \<Rightarrow> json \<Rightarrow> error + order_data" where
  "transform_order lib raw_order =
     (case as_dict raw_order of
        Inl e \<Rightarrow> Inl e
      | Inr raw \<Rightarrow>
     (let payment = get_default raw ''payment'' (JDict []);
          items = get_default raw ''line_items'' (get_default raw ''item_list'' (JList []))
      in case py_len items of
        Inl e \<Rightarrow> Inl e
      | Inr item_count \<Rightarrow>
     (let shipping_provider =
            py_or (get_none raw ''shipping_provider_name'') (get_none raw ''shipping_provider'');
          tracking_number = get_none raw ''tracking_number'';
          status = py_or (get_none raw ''order_status'')
                     (get_default raw ''status'' (JStr ''UNKNOWN''))
      in case fromtimestamp lib (get_default raw ''create_time'' (JInt 0)) of
        Inl e \<Rightarrow> Inl e
      | Inr created_time \<Rightarrow>
     (case optional_time lib raw ''paid_time'' of
        Inl e \<Rightarrow> Inl e
      | Inr paid_time \<Rightarrow>
     (case optional_time lib raw ''ship_time'' of
        Inl e \<Rightarrow> Inl e
      | Inr shipped_time \<Rightarrow>
     (case optional_time lib raw ''delivery_time'' of
        Inl e \<Rightarrow> Inl e
      | Inr delivered_time \<Rightarrow>
     (case as_dict payment of
        Inl e \<Rightarrow> Inl e
      | Inr pay \<Rightarrow>
     (case to_decimal lib (get_default pay ''total_amount'' (JInt 0)) of
        Inl e \<Rightarrow> Inl e
      | Inr total_amount \<Rightarrow>
          Inr [(''id'', CJson (get_none raw ''id'')),
               (''order_number'', CJson (py_or (get_none raw ''order_id'') (get_none raw ''id''))),
               (''status'', CJson status),
               (''created_time'', created_time),
               (''paid_time'', paid_time),
               (''shipped_time'', shipped_time),
               (''delivered_time'', delivered_time),
               (''total_amount'', total_amount),
               (''currency'', CJson (get_default pay ''currency'' (JStr ''GBP''))),
               (''item_count'', CJson (JInt (int item_count))),
               (''customer_id'',
                  CJson (py_or (get_none raw ''buyer_uid'') (get_none raw ''buyer_user_id''))),
               (''shipping_provider'', CJson shipping_provider),
               (''tracking_number'', CJson tracking_number),
               (''raw_data'', CJson raw_order)]))))))))"

section \<open>Storage\<close>

text \<open>
  Modelled from the spec: the storage collaborator (\<open>app/database.py\<close> and the session it
  hands out are not among the sources). Records are kept by id, one watermark row per sync
  type. A session sees its own pending changes, as it flushes them before every query;
  \<open>commit\<close> makes them the stored state, \<open>rollback\<close> drops them. A new order or product row
  takes the column default \<open>synced_at\<close> of its model (app/models/order.py,
  app/models/product.py), a new watermark row the defaults \<open>created_at\<close> and \<open>updated_at\<close>
  (app/models/sync\_metadata.py). A \<open>Decimal\<close> is stored as its text, not rounded to the
  two places of the column.
\<close>

record SyncMetadata =
  sync_type :: string
  last_sync_time :: "int option"
  last_record_time :: "colval option"
  records_synced :: nat
  is_full_sync :: int
  created_at :: "int option"
  updated_at :: "int option"

type_synonym table = "(colval \<times> order_data) list"

record store =
  orders :: table
  products :: table
  sync_metadata :: "string \<rightharpoonup> SyncMetadata"

record session =
  committed :: store
  pending :: store

definition commit :: "session \<Rightarrow> session" where
  "commit s = s\<lparr>committed := pending s\<rparr>"

definition rollback :: "session \<Rightarrow> session" where
  "rollback s = s\<lparr>pending := committed s\<rparr>"

text \<open>\<open>for key, value in order_data.items(): setattr(existing, key, value)\<close>\<close>

definition set_columns :: "order_data \<Rightarrow> order_data \<Rightarrow> order_data" where
  "set_columns existing od = fold (\<lambda>(k, v) row. dict_set row k v) od existing"

text \<open>
  The update of the existing row with the id, or the insertion of a new one (sync.py, lines
  102 to 112 for an order, 210 to 220 for a product), on the table of the session.
\<close>

definition upsert_row :: "int \<Rightarrow> colval \<Rightarrow> order_data \<Rightarrow> table \<Rightarrow> table" where
  "upsert_row now oid od tbl =
     dict_set tbl oid
       (case dict_get tbl oid of
          Some existing \<Rightarrow> set_columns existing od
        | None \<Rightarrow> od @ [(''synced_at'', CDatetime now)])"

definition upsert_order :: "int \<Rightarrow> colval \<Rightarrow> order_data \<Rightarrow> session \<Rightarrow> session" where
  "upsert_order now oid od s =
     s\<lparr>pending := (pending s)\<lparr>orders := upsert_row now oid od (orders (pending s))\<rparr>\<rparr>"

definition upsert_product :: "int \<Rightarrow> colval \<Rightarrow> order_data \<Rightarrow> session \<Rightarrow> session" where
  "upsert_product now pid pd s =
     s\<lparr>pending := (pending s)\<lparr>products := upsert_row now pid pd (products (pending s))\<rparr>\<rparr>"

text \<open>
  The constraints of the tables. An order (app/models/order.py) has its \<open>id\<close> as primary
  key and a unique \<open>order_number\<close>: the database refuses a row without id, and a row whose
  order number, when it has one, is that of another row. A product (app/models/product.py)
  has its \<open>id\<close> as primary key and needs a \<open>name\<close>. The refusal comes as \<open>IntegrityError\<close>
  when the change is flushed: at the next query or at the commit.
\<close>

definition refuses_order :: "colval \<Rightarrow> order_data \<Rightarrow> table \<Rightarrow> bool" where
  "refuses_order oid od tbl =
     (oid = CJson JNull \<or>
      (case dict_get od ''order_number'' of
         None \<Rightarrow> False
       | Some n \<Rightarrow>
           n \<noteq> CJson JNull \<and>
           list_ex (\<lambda>kv. fst kv \<noteq> oid \<and> dict_get (snd kv) ''order_number'' = Some n) tbl))"

definition refuses_product :: "colval \<Rightarrow> order_data \<Rightarrow> bool" where
  "refuses_product pid pd = (pid = CJson JNull \<or> dict_get pd ''name'' = Some (CJson JNull))"

section \<open>The sync engine (app/api/sync.py)\<close>

text \<open>The truth value of a column value.\<close>

definition truthy_col :: "pylib \<Rightarrow> colval \<Rightarrow> bool" where
  "truthy_col lib v =
     (case v of
        CJson j \<Rightarrow> truthy j
      | CDatetime t \<Rightarrow> True
      | CDecimal s \<Rightarrow> \<not> decimal_is_zero lib s)"

text \<open>\<open>a > b\<close>\<close>

definition col_gt :: "pylib \<Rightarrow> colval \<Rightarrow> colval \<Rightarrow> error + bool" where
  "col_gt lib a b =
     (case (a, b) of
        (CDatetime x, CDatetime y) \<Rightarrow> Inr (y < x)
      | _ \<Rightarrow> (case py_gt lib a b of None \<Rightarrow> Inl TypeError | Some r \<Rightarrow> Inr r))"

text \<open>\<open>s.replace('Z', '+00:00')\<close>\<close>

definition replace_Z :: "string \<Rightarrow> string" where
  "replace_Z s = concat (map (\<lambda>c. if c = CHR ''Z'' then ''+00:00'' else [c]) s)"

text \<open>
  The tracking of the most recent order time (lines 116 to 122): the new value of
  \<open>most_recent_order_time\<close>.
\<close>

definition track_order_time ::
  "pylib \<Rightarrow> order_data \<Rightarrow> colval option \<Rightarrow> error + colval option" where
  "track_order_time lib od most_recent =
     (case dict_get od ''created_at'' of
        None \<Rightarrow> Inr most_recent
      | Some v \<Rightarrow>
          if \<not> truthy_col lib v then Inr most_recent
          else
            (case (case v of
                     CJson (JStr s) \<Rightarrow>
                       (case fromisoformat lib (replace_Z s) of
                          None \<Rightarrow> Inl ValueError
                        | Some t \<Rightarrow> Inr (CDatetime t))
                   | _ \<Rightarrow> Inr v) of
               Inl e \<Rightarrow> Inl e
             | Inr order_time \<Rightarrow>
                 (case most_recent of
                    None \<Rightarrow> Inr (Some order_time)
                  | Some m \<Rightarrow>
                      (case col_gt lib order_time m of
                         Inl e \<Rightarrow> Inl e
                       | Inr b \<Rightarrow> Inr (if b then Some order_time else most_recent)))))"

text \<open>
  The variables of a pass that change while it runs; whether the session holds a change
  that the database refuses at the next flush; and two records of what happened: the
  requests that went out and the pages whose rows were committed.
\<close>

record loop_state =
  synced_count :: nat
  page_token :: json
  most_recent_order_time :: "colval option"
  db :: session
  violation :: bool
  sent :: "http_request list"
  pages_done :: "json list list"

text \<open>
  The body of \<open>for raw_order in orders\<close> (lines 100 to 122); \<open>Some e\<close> is the exception
  raised. The query of line 103 flushes the change made for the row before.
\<close>

definition save_order :: "pylib \<Rightarrow> int \<Rightarrow> json \<Rightarrow> loop_state \<Rightarrow> error option \<times> loop_state" where
  "save_order lib now raw_order st =
     (case transform_order lib raw_order of
        Inl e \<Rightarrow> (Some e, st)
      | Inr od \<Rightarrow>
          (case dict_get od ''id'' of
             None \<Rightarrow> (Some KeyError, st)
           | Some oid \<Rightarrow>
               if violation st then (Some IntegrityError, st)
               else
                 (let st1 = st\<lparr>db := upsert_order now oid od (db st),
                               violation := refuses_order oid od (orders (pending (db st))),
                               synced_count := synced_count st + 1\<rparr>
                  in case track_order_time lib od (most_recent_order_time st1) of
                       Inl e \<Rightarrow> (Some e, st1)
                     | Inr m \<Rightarrow> (None, st1\<lparr>most_recent_order_time := m\<rparr>))))"

fun save_orders :: "pylib \<Rightarrow> int \<Rightarrow> json list \<Rightarrow> loop_state \<Rightarrow> error option \<times> loop_state" where
  "save_orders lib now [] st = (None, st)"
| "save_orders lib now (raw_order # rest) st =
     (case save_order lib now raw_order st of
        (Some e, st1) \<Rightarrow> (Some e, st1)
      | (None, st1) \<Rightarrow> save_orders lib now rest st1)"

text \<open>The values that \<open>for x in v\<close> runs through.\<close>

definition py_iter :: "json \<Rightarrow> error + json list" where
  "py_iter v =
     (case v of
        JList xs \<Rightarrow> Inr xs
      | JStr s \<Rightarrow> Inr (map (\<lambda>c. JStr [c]) s)
      | JDict d \<Rightarrow> Inr (map (\<lambda>kv. JStr (fst kv)) d)
      | _ \<Rightarrow> Inl TypeError)"

text \<open>\<open>v != 0\<close>: \<open>False\<close> equals 0 in Python.\<close>

definition ne_zero :: "json \<Rightarrow> bool" where
  "ne_zero v = (v \<noteq> JInt 0 \<and> v \<noteq> JBool False)"

text \<open>\<open>int(t.timestamp()) if t else None\<close> for the \<open>datetime\<close> or \<open>None\<close> in \<open>t\<close>.\<close>

definition time_arg :: "int option \<Rightarrow> pytime option" where
  "time_arg t = (case t of None \<Rightarrow> None | Some x \<Rightarrow> Some (IntValue x))"

text \<open>\<open>max_orders and synced_count >= max_orders\<close>\<close>

definition limit_reached :: "int option \<Rightarrow> nat \<Rightarrow> bool" where
  "limit_reached max_orders n =
     (case max_orders of None \<Rightarrow> False | Some m \<Rightarrow> m \<noteq> 0 \<and> m \<le> int n)"

text \<open>
  How a loop ends: with an exception, by \<open>break\<close>, or not within the rounds it was given.
\<close>

datatype outcome = Raised error | Left | Unfinished

text \<open>
  What the loop reads from the result of \<open>get_orders\<close> (lines 86 to 99 and 128): the
  exception raised on the way, \<open>None\<close> where it leaves by \<open>break\<close>, or the rows of the
  page with the token for the next page.
\<close>

definition read_page :: "error + json \<Rightarrow> error + (json list \<times> json) option" where
  "read_page r =
     (case r of
        Inl e \<Rightarrow> Inl e
      | Inr response \<Rightarrow>
     (case as_dict response of
        Inl e \<Rightarrow> Inl e
      | Inr resp \<Rightarrow>
          if ne_zero (get_none resp ''code'') then Inr None
          else
     (case as_dict (get_default resp ''data'' (JDict [])) of
        Inl e \<Rightarrow> Inl e
      | Inr data \<Rightarrow>
     (let orders = get_default data ''orders'' (JList [])
      in if \<not> truthy orders then Inr None
         else
     (case py_iter orders of
        Inl e \<Rightarrow> Inl e
      | Inr raw_orders \<Rightarrow> Inr (Some (raw_orders, get_none data ''next_page_token'')))))))"

text \<open>
  One round of the loop \<open>while True\<close> of \<open>sync_orders_task\<close> (lines 76 to 136): it stops
  the loop, with an exception or by \<open>break\<close>, or goes on to the next round. The upstream is
  \<open>up\<close>: \<open>up i\<close> answers the request that goes out after \<open>i\<close> others of the pass. The
  round is the call of \<open>get_orders\<close> (lines 77 to 84) and then what is done with its result
  (lines 86 to 136); \<open>db.commit()\<close> flushes the change made for the last row.
\<close>

datatype 's round = Stop outcome 's | Continue 's

definition handle_response ::
  "pylib \<Rightarrow> int \<Rightarrow> int option \<Rightarrow> error + json \<Rightarrow> loop_state \<Rightarrow> loop_state round" where
  "handle_response lib now max_orders r st1 =
     (case read_page r of
        Inl e \<Rightarrow> Stop (Raised e) st1
      | Inr None \<Rightarrow> Stop Left st1
      | Inr (Some (raw_orders, next_token)) \<Rightarrow>
     (case save_orders lib now raw_orders st1 of
        (Some e, st2) \<Rightarrow> Stop (Raised e) st2
      | (None, st2) \<Rightarrow>
          if violation st2 then Stop (Raised IntegrityError) st2
          else
     (let st3 = st2\<lparr>db := commit (db st2),
                   pages_done := pages_done st2 @ [raw_orders],
                   page_token := next_token\<rparr>
      in if \<not> truthy (page_token st3) then Stop Left st3
         else if limit_reached max_orders (synced_count st3) then Stop Left st3
         else Continue st3)))"

definition orders_round ::
  "pylib \<Rightarrow> TikTokShopClient \<Rightarrow> (nat \<Rightarrow> http_request \<Rightarrow> error + http_response) \<Rightarrow> int
     \<Rightarrow> int option \<Rightarrow> int option \<Rightarrow> int option \<Rightarrow> loop_state \<Rightarrow> loop_state round" where
  "orders_round lib client up now start_time end_time max_orders st =
     (case get_orders lib client (up (length (sent st))) now (time_arg start_time)
             (time_arg end_time) 100 (page_token st) None ''create_time'' ''DESC'' of
        (r, reqs) \<Rightarrow> handle_response lib now max_orders r (st\<lparr>sent := sent st @ reqs\<rparr>))"

text \<open>
  The loop. It can run for ever, so it is given a number of rounds. The result is how the
  loop ended and the state it ended in.
\<close>

fun orders_loop ::
  "nat \<Rightarrow> pylib \<Rightarrow> TikTokShopClient \<Rightarrow> (nat \<Rightarrow> http_request \<Rightarrow> error + http_response) \<Rightarrow> int
     \<Rightarrow> int option \<Rightarrow> int option \<Rightarrow> int option \<Rightarrow> loop_state \<Rightarrow> outcome \<times> loop_state" where
  "orders_loop 0 lib client up now start_time end_time max_orders st = (Unfinished, st)"
| "orders_loop (Suc n) lib client up now start_time end_time max_orders st =
     (case orders_round lib client up now start_time end_time max_orders st of
        Stop out st1 \<Rightarrow> (out, st1)
      | Continue st1 \<Rightarrow> orders_loop n lib client up now start_time end_time max_orders st1)"

text \<open>\<open>most_recent_order_time or datetime.utcnow()\<close>\<close>

definition record_time :: "pylib \<Rightarrow> colval option \<Rightarrow> int \<Rightarrow> colval" where
  "record_time lib most_recent now =
     (case most_recent of
        None \<Rightarrow> CDatetime now
      | Some v \<Rightarrow> if truthy_col lib v then v else CDatetime now)"

text \<open>The update of the watermark and its commit (lines 138 to 159).\<close>

definition update_sync_metadata ::
  "pylib \<Rightarrow> int \<Rightarrow> bool \<Rightarrow> nat \<Rightarrow> colval option \<Rightarrow> session \<Rightarrow> session" where
  "update_sync_metadata lib now full n most_recent s =
     (let row =
        (case sync_metadata (pending s) ''orders'' of
           Some sync_meta \<Rightarrow>
             sync_meta\<lparr>last_sync_time := Some now,
                       last_record_time := Some (record_time lib most_recent now),
                       records_synced := n,
                       is_full_sync := (if full then 1 else 0),
                       updated_at := Some now\<rparr>
         | None \<Rightarrow>
             \<lparr>sync_type = ''orders'',
              last_sync_time = Some now,
              last_record_time = Some (record_time lib most_recent now),
              records_synced = n,
              is_full_sync = (if full then 1 else 0),
              created_at = Some now,
              updated_at = Some now\<rparr>)
      in commit (s\<lparr>pending := (pending s)\<lparr>sync_metadata :=
                     (sync_metadata (pending s))(''orders'' \<mapsto> row)\<rparr>\<rparr>))"

text \<open>
  The choice between an incremental and a full pass (lines 56 to 73): the fetch window and
  the final value of \<open>is_full_sync\<close>.
\<close>

definition choose_window :: "int \<Rightarrow> bool \<Rightarrow> session \<Rightarrow> int option \<times> int option \<times> bool" where
  "choose_window now force_full_sync s =
     (if \<not> force_full_sync then
        (case sync_metadata (pending s) ''orders'' of
           None \<Rightarrow> (None, None, True)
         | Some sync_meta \<Rightarrow>
             (case last_sync_time sync_meta of
                None \<Rightarrow> (None, None, True)
              | Some t \<Rightarrow> (Some (t - 300), Some now, False)))
      else (None, None, force_full_sync))"

text \<open>
  The variables of \<open>sync_orders_task\<close> when the loop is entered (lines 48 to 53). The
  session is handed over flushed.
\<close>

definition pass_init :: "session \<Rightarrow> loop_state" where
  "pass_init s =
     \<lparr>synced_count = 0, page_token = JNull, most_recent_order_time = None,
      db = s, violation = False, sent = [], pages_done = []\<rparr>"

text \<open>The loop as \<open>sync_orders_task\<close> runs it: client, window and first state.\<close>

definition orders_pass_loop ::
  "nat \<Rightarrow> pylib \<Rightarrow> settings \<Rightarrow> (nat \<Rightarrow> http_request \<Rightarrow> error + http_response) \<Rightarrow> int
     \<Rightarrow> session \<Rightarrow> string \<Rightarrow> int option \<Rightarrow> bool \<Rightarrow> outcome \<times> loop_state" where
  "orders_pass_loop fuel lib cfg up now s token max_orders force_full_sync =
     (case choose_window now force_full_sync s of
        (start_time, end_time, full) \<Rightarrow>
          orders_loop fuel lib (init_client cfg (Some token)) up now start_time end_time
            max_orders (pass_init s))"

text \<open>
  What follows the loop: the watermark and \<open>return synced_count\<close> (lines 138 to 162), where
  the query of line 139 flushes, or the handler with \<open>db.rollback()\<close> and \<open>raise\<close> (lines
  164 to 167). \<open>None\<close> is a pass that has not returned.
\<close>

definition finish_pass ::
  "pylib \<Rightarrow> int \<Rightarrow> bool \<Rightarrow> outcome \<times> loop_state
     \<Rightarrow> ((error + nat) \<times> session \<times> http_request list \<times> json list list) option" where
  "finish_pass lib now full r =
     (case r of
        (Unfinished, st) \<Rightarrow> None
      | (Raised e, st) \<Rightarrow> Some (Inl e, rollback (db st), sent st, pages_done st)
      | (Left, st) \<Rightarrow>
          if violation st
          then Some (Inl IntegrityError, rollback (db st), sent st, pages_done st)
          else Some (Inr (synced_count st),
                     update_sync_metadata lib now full (synced_count st)
                       (most_recent_order_time st) (db st),
                     sent st, pages_done st))"

text \<open>
  \<open>sync_orders_task(db, access_token, days_back, max_orders, force_full_sync)\<close>. Every
  reading of the clock in a pass gives \<open>now\<close>. The result is \<open>Inl e\<close> for the exception
  raised again by the handler or \<open>Inr\<close> of the number returned; with it come the session and
  the two records of the loop.
\<close>

definition sync_orders_task ::
  "nat \<Rightarrow> pylib \<Rightarrow> settings \<Rightarrow> (nat \<Rightarrow> http_request \<Rightarrow> error + http_response) \<Rightarrow> int
     \<Rightarrow> session \<Rightarrow> string \<Rightarrow> int \<Rightarrow> int option \<Rightarrow> bool
     \<Rightarrow> ((error + nat) \<times> session \<times> http_request list \<times> json list list) option" where
  "sync_orders_task fuel lib cfg up now s token days_back max_orders force_full_sync =
     finish_pass lib now (snd (snd (choose_window now force_full_sync s)))
       (orders_pass_loop fuel lib cfg up now s token max_orders force_full_sync)"

text \<open>
  What a row of a fully processed page does to the table of orders: the row that
  \<open>transform_order\<close> makes of it is stored under its id.
\<close>

definition store_raw :: "pylib \<Rightarrow> int \<Rightarrow> json \<Rightarrow> table \<Rightarrow> table" where
  "store_raw lib now raw_order tbl =
     (case transform_order lib raw_order of
        Inl e \<Rightarrow> tbl
      | Inr od \<Rightarrow>
          (case dict_get od ''id'' of
             None \<Rightarrow> tbl
           | Some oid \<Rightarrow> upsert_row now oid od tbl))"

text \<open>
  The continuation token that a response carries (\<open>data.next_page_token\<close>), \<open>None\<close> when
  there is none.
\<close>

definition next_page_token :: "error + http_response \<Rightarrow> json" where
  "next_page_token r =
     (case r of
        Inl e \<Rightarrow> JNull
      | Inr resp \<Rightarrow>
          (case json_body resp of
             Some (JDict d) \<Rightarrow>
               (case get_default d ''data'' (JDict []) of
                  JDict data \<Rightarrow> get_none data ''next_page_token''
                | _ \<Rightarrow> JNull)
           | _ \<Rightarrow> JNull))"

section \<open>The pass over products\<close>

text \<open>
  \<open>get_products(self, page_size, page_number, status)\<close> (tiktok\_client.py, lines 279 to
  318). The page number is a parameter of the method; the request is built without it.
\<close>

definition get_products ::
  "pylib \<Rightarrow> TikTokShopClient \<Rightarrow> (http_request \<Rightarrow> error + http_response) \<Rightarrow> int
     \<Rightarrow> int \<Rightarrow> int \<Rightarrow> string option \<Rightarrow> (error + json) \<times> http_request list" where
  "get_products lib self send now page_size page_number status =
     (let request_body =
            (if or_empty status \<noteq> [] then [(''status'', JStr (or_empty status))] else []);
          params0 = [(''page_size'', JInt (min page_size 100)), (''version'', JStr ''202502'')];
          params1 = (if shop_cipher self \<noteq> []
                     then dict_set params0 ''shop_cipher'' (JStr (shop_cipher self))
                     else params0);
          params2 = (if shop_id self \<noteq> []
                     then dict_set params1 ''shop_id'' (JStr (shop_id self))
                     else params1)
      in make_request lib self send now ''POST'' ''/product/202502/products/search''
           (Some params2) (Some (JDict request_body)))"

text \<open>\<open>v[0]\<close>\<close>

definition first_item :: "json \<Rightarrow> error + json" where
  "first_item v =
     (case v of
        JList (x # xs) \<Rightarrow> Inr x
      | JList [] \<Rightarrow> Inl IndexError
      | JStr (c # cs) \<Rightarrow> Inr (JStr [c])
      | JStr [] \<Rightarrow> Inl IndexError
      | JDict d \<Rightarrow> Inl KeyError
      | _ \<Rightarrow> Inl TypeError)"

text \<open>The image URL of a product (data\_transformer.py, lines 81 to 88).\<close>

definition image_url_of :: "pydict \<Rightarrow> error + json" where
  "image_url_of raw =
     (case get_default raw ''main_images'' (get_default raw ''images'' (JList [])) of
        JList (first_image # rest) \<Rightarrow>
          (case first_image of
             JStr s \<Rightarrow> Inr (JStr s)
           | JDict d \<Rightarrow> Inr (get_none d ''url'')
           | _ \<Rightarrow> Inl AttributeError)
      | _ \<Rightarrow> Inr JNull)"

text \<open>The price and the seller SKU, from the first SKU (lines 93 to 108).\<close>

definition price_and_sku :: "pylib \<Rightarrow> json \<Rightarrow> error + colval \<times> json" where
  "price_and_sku lib skus =
     (if truthy skus then
        (case py_len skus of
           Inl e \<Rightarrow> Inl e
         | Inr n \<Rightarrow>
             if 0 < n then
               (case first_item skus of
                  Inl e \<Rightarrow> Inl e
                | Inr first \<Rightarrow>
                    (case as_dict first of
                       Inl e \<Rightarrow> Inl e
                     | Inr first_sku \<Rightarrow>
                         (case as_dict (get_default first_sku ''price'' (JDict [])) of
                            Inl e \<Rightarrow> Inl e
                          | Inr price_info \<Rightarrow>
                              (case to_decimal lib
                                      (py_or (py_or (py_or
                                         (get_none price_info ''tax_exclusive_price'')
                                         (get_none price_info ''amount''))
                                         (get_none price_info ''original_price''))
                                         (JStr ''0'')) of
                                 Inl e \<Rightarrow> Inl e
                               | Inr price \<Rightarrow> Inr (price, get_none first_sku ''seller_sku'')))))
             else Inr (CDecimal ''0'', JNull))
      else Inr (CDecimal ''0'', JNull))"

text \<open>\<open>stock += v\<close> for an integer \<open>stock\<close>.\<close>

definition add_quantity :: "int \<Rightarrow> json \<Rightarrow> error + int" where
  "add_quantity stock v =
     (case v of
        JInt n \<Rightarrow> Inr (stock + n)
      | JBool b \<Rightarrow> Inr (stock + (if b then 1 else 0))
      | _ \<Rightarrow> Inl TypeError)"

text \<open>The two loops that add up the stock (lines 111 to 115).\<close>

fun stock_of_inventory :: "json list \<Rightarrow> int \<Rightarrow> error + int" where
  "stock_of_inventory [] stock = Inr stock"
| "stock_of_inventory (entry # rest) stock =
     (case as_dict entry of
        Inl e \<Rightarrow> Inl e
      | Inr i \<Rightarrow>
          (case add_quantity stock
                  (get_default i ''quantity'' (get_default i ''available_stock'' (JInt 0))) of
             Inl e \<Rightarrow> Inl e
           | Inr stock1 \<Rightarrow> stock_of_inventory rest stock1))"

fun stock_of_skus :: "json list \<Rightarrow> int \<Rightarrow> error + int" where
  "stock_of_skus [] stock = Inr stock"
| "stock_of_skus (sku # rest) stock =
     (case as_dict sku of
        Inl e \<Rightarrow> Inl e
      | Inr s \<Rightarrow>
          (case py_iter (get_default s ''inventory'' (get_default s ''stock_infos'' (JList []))) of
             Inl e \<Rightarrow> Inl e
           | Inr inventory_list \<Rightarrow>
               (case stock_of_inventory inventory_list stock of
                  Inl e \<Rightarrow> Inl e
                | Inr stock1 \<Rightarrow> stock_of_skus rest stock1)))"

text \<open>The status, which the audit object overrides (lines 121 to 126).\<close>

definition product_status :: "pydict \<Rightarrow> error + json" where
  "product_status raw =
     (case dict_get raw ''audit'' of
        None \<Rightarrow> Inr (get_default raw ''status'' (JStr ''UNKNOWN''))
      | Some audit \<Rightarrow>
          (case as_dict audit of
             Inl e \<Rightarrow> Inl e
           | Inr a \<Rightarrow>
               Inr (if truthy (get_none a ''status'') then get_none a ''status''
                    else get_default raw ''status'' (JStr ''UNKNOWN''))))"

text \<open>The category and the brand (lines 135 and 136).\<close>

definition product_category :: "pydict \<Rightarrow> error + json" where
  "product_category raw =
     (if truthy (get_none raw ''category_name'') then Inr (get_none raw ''category_name'')
      else (case as_dict (get_default raw ''category'' (JDict [])) of
              Inl e \<Rightarrow> Inl e
            | Inr c \<Rightarrow> Inr (get_none c ''name'')))"

definition product_brand :: "pydict \<Rightarrow> json" where
  "product_brand raw =
     (case get_none raw ''brand'' of
        JDict b \<Rightarrow> get_none b ''name''
      | v \<Rightarrow> v)"

text \<open>\<open>DataTransformer.transform_product(raw_product)\<close>\<close>

definition transform_product :: "pylib \<Rightarrow> json \<Rightarrow> error + order_data" where
  "transform_product lib raw_product =
     (case as_dict raw_product of
        Inl e \<Rightarrow> Inl e
      | Inr raw \<Rightarrow>
     (case image_url_of raw of
        Inl e \<Rightarrow> Inl e
      | Inr image_url \<Rightarrow>
     (case price_and_sku lib (get_default raw ''skus'' (JList [])) of
        Inl e \<Rightarrow> Inl e
      | Inr (price, seller_sku) \<Rightarrow>
     (case py_iter (get_default raw ''skus'' (JList [])) of
        Inl e \<Rightarrow> Inl e
      | Inr skus \<Rightarrow>
     (case stock_of_skus skus 0 of
        Inl e \<Rightarrow> Inl e
      | Inr stock \<Rightarrow>
     (case product_status raw of
        Inl e \<Rightarrow> Inl e
      | Inr status \<Rightarrow>
     (case product_category raw of
        Inl e \<Rightarrow> Inl e
      | Inr category \<Rightarrow>
          Inr [(''id'', CJson (py_or (get_none raw ''id'') (get_none raw ''product_id''))),
               (''name'', CJson (py_or (get_none raw ''title'')
                                   (get_default raw ''product_name'' (JStr ''Unknown Product'')))),
               (''sku'', CJson seller_sku),
               (''status'', CJson status),
               (''price'', price),
               (''stock_quantity'', CJson (JInt stock)),
               (''category'', CJson category),
               (''brand'', CJson (product_brand raw)),
               (''image_url'', CJson image_url),
               (''lookfantastic_sku'', CJson JNull),
               (''raw_data'', CJson raw_product)])))))))"

text \<open>
  The variables of \<open>sync_products_task\<close> that change while it runs; whether the session
  holds a change that the database refuses at the next flush; the requests that went out;
  and the calls of \<open>get_products\<close>, each with its page size and page number.
\<close>

record products_state =
  product_count :: nat
  page_number :: int
  product_db :: session
  product_violation :: bool
  product_requests :: "http_request list"
  product_calls :: "(int \<times> int) list"

text \<open>The body of \<open>for raw_product in products\<close> (sync.py, lines 207 to 222).\<close>

fun save_products ::
  "pylib \<Rightarrow> int \<Rightarrow> json list \<Rightarrow> products_state \<Rightarrow> error option \<times> products_state" where
  "save_products lib now [] st = (None, st)"
| "save_products lib now (raw_product # rest) st =
     (case transform_product lib raw_product of
        Inl e \<Rightarrow> (Some e, st)
      | Inr pd \<Rightarrow>
          (case dict_get pd ''id'' of
             None \<Rightarrow> (Some KeyError, st)
           | Some pid \<Rightarrow>
               if product_violation st then (Some IntegrityError, st)
               else
                 save_products lib now rest
                   (st\<lparr>product_db := upsert_product now pid pd (product_db st),
                       product_violation := refuses_product pid pd,
                       product_count := product_count st + 1\<rparr>)))"

text \<open>
  What the loop over products reads from the result of \<open>get_products\<close> (lines 195 to 204
  and 227): as for the orders, with the value of \<open>more\<close> in place of the token.
\<close>

definition read_products :: "error + json \<Rightarrow> error + (json list \<times> json) option" where
  "read_products r =
     (case r of
        Inl e \<Rightarrow> Inl e
      | Inr response \<Rightarrow>
     (case as_dict response of
        Inl e \<Rightarrow> Inl e
      | Inr resp \<Rightarrow>
          if ne_zero (get_none resp ''code'') then Inr None
          else
     (case as_dict (get_default resp ''data'' (JDict [])) of
        Inl e \<Rightarrow> Inl e
      | Inr data \<Rightarrow>
     (let products = get_default data ''products'' (JList [])
      in if \<not> truthy products then Inr None
         else
     (case py_iter products of
        Inl e \<Rightarrow> Inl e
      | Inr raw_products \<Rightarrow> Inr (Some (raw_products, get_none data ''more'')))))))"

text \<open>
  One round of the loop of \<open>sync_products_task\<close> (lines 189 to 230): the call of
  \<open>get_products\<close> with the page number, and what is done with its result.
\<close>

definition products_round ::
  "pylib \<Rightarrow> TikTokShopClient \<Rightarrow> (nat \<Rightarrow> http_request \<Rightarrow> error + http_response) \<Rightarrow> int
     \<Rightarrow> products_state \<Rightarrow> products_state round" where
  "products_round lib client up now st =
     (case get_products lib client (up (length (product_requests st))) now 100
             (page_number st) None of
        (r, reqs) \<Rightarrow>
     (let st1 = st\<lparr>product_requests := product_requests st @ reqs,
                   product_calls := product_calls st @ [(100, page_number st)]\<rparr>
      in case read_products r of
        Inl e \<Rightarrow> Stop (Raised e) st1
      | Inr None \<Rightarrow> Stop Left st1
      | Inr (Some (raw_products, has_more)) \<Rightarrow>
     (case save_products lib now raw_products st1 of
        (Some e, st2) \<Rightarrow> Stop (Raised e) st2
      | (None, st2) \<Rightarrow>
          if product_violation st2 then Stop (Raised IntegrityError) st2
          else
     (let st3 = st2\<lparr>product_db := commit (product_db st2)\<rparr>
      in if \<not> truthy has_more then Stop Left st3
         else Continue (st3\<lparr>page_number := page_number st3 + 1\<rparr>)))))"

fun products_loop ::
  "nat \<Rightarrow> pylib \<Rightarrow> TikTokShopClient \<Rightarrow> (nat \<Rightarrow> http_request \<Rightarrow> error + http_response) \<Rightarrow> int
     \<Rightarrow> products_state \<Rightarrow> outcome \<times> products_state" where
  "products_loop 0 lib client up now st = (Unfinished, st)"
| "products_loop (Suc n) lib client up now st =
     (case products_round lib client up now st of
        Stop out st1 \<Rightarrow> (out, st1)
      | Continue st1 \<Rightarrow> products_loop n lib client up now st1)"

text \<open>The loop as \<open>sync_products_task\<close> runs it (lines 181 to 185).\<close>

definition products_pass_loop ::
  "nat \<Rightarrow> pylib \<Rightarrow> settings \<Rightarrow> (nat \<Rightarrow> http_request \<Rightarrow> error + http_response) \<Rightarrow> int
     \<Rightarrow> session \<Rightarrow> string \<Rightarrow> outcome \<times> products_state" where
  "products_pass_loop fuel lib cfg up now s token =
     products_loop fuel lib (init_client cfg (Some token)) up now
       \<lparr>product_count = 0, page_number = 1, product_db = s, product_violation = False,
        product_requests = [], product_calls = []\<rparr>"

text \<open>
  \<open>sync_products_task(db, access_token)\<close>: the result, the session, the requests and the
  calls of \<open>get_products\<close>.
\<close>

definition sync_products_task ::
  "nat \<Rightarrow> pylib \<Rightarrow> settings \<Rightarrow> (nat \<Rightarrow> http_request \<Rightarrow> error + http_response) \<Rightarrow> int
     \<Rightarrow> session \<Rightarrow> string
     \<Rightarrow> ((error + nat) \<times> session \<times> http_request list \<times> (int \<times> int) list) option" where
  "sync_products_task fuel lib cfg up now s token =
     (case products_pass_loop fuel lib cfg up now s token of
        (Unfinished, st) \<Rightarrow> None
      | (Raised e, st) \<Rightarrow>
          Some (Inl e, rollback (product_db st), product_requests st, product_calls st)
      | (Left, st) \<Rightarrow>
          Some (Inr (product_count st), product_db st, product_requests st, product_calls st))"

section \<open>Concrete inputs\<close>

text \<open>
  A library whose digest is the message itself, so that the signed string can be read off a
  signature, and which accepts every timestamp and every decimal text.
\<close>

definition demo_lib :: pylib where
  "demo_lib =
     \<lparr>hmac_sha256_hex = (\<lambda>key msg. msg),
      json_dumps = (\<lambda>v. ''J''),
      py_repr = (\<lambda>v. ''R''),
      timestamp_error = (\<lambda>n. None),
      decimal_ok = (\<lambda>s. True),
      decimal_is_zero = (\<lambda>s. False),
      fromisoformat = (\<lambda>s. None),
      py_gt = (\<lambda>a b. None)\<rparr>"

definition demo_settings :: settings where
  "demo_settings =
     \<lparr>tiktok_app_key = ''key'',
      tiktok_app_secret = ''S'',
      tiktok_shop_cipher = None,
      tiktok_shop_id = None,
      tiktok_access_token = None,
      tiktok_api_base_url = ''http://x''\<rparr>"

definition demo_client :: TikTokShopClient where
  "demo_client = init_client demo_settings (Some ''tok'')"

definition demo_params :: pydict where
  "demo_params = [(''b'', JInt 2), (''sign'', JStr ''x''), (''a'', JStr ''v'')]"

definition demo_params_reordered :: pydict where
  "demo_params_reordered = [(''a'', JStr ''v''), (''b'', JInt 2), (''sign'', JStr ''x'')]"

text \<open>An upstream with two pages of orders, and one whose second exchange fails.\<close>

definition demo_order :: "string \<Rightarrow> json" where
  "demo_order i = JDict [(''id'', JStr i), (''create_time'', JInt 5)]"

definition ok_response :: "json \<Rightarrow> error + http_response" where
  "ok_response j = Inr \<lparr>status_code = 200, json_body = Some j\<rparr>"

definition first_page :: json where
  "first_page =
     JDict [(''code'', JInt 0),
            (''data'', JDict [(''orders'', JList [demo_order ''a'', demo_order ''b'']),
                              (''next_page_token'', JStr ''abc'')])]"

definition second_page :: json where
  "second_page =
     JDict [(''code'', JInt 0), (''data'', JDict [(''orders'', JList [demo_order ''c''])])]"

definition demo_pages :: "nat \<Rightarrow> json option \<Rightarrow> error + http_response" where
  "demo_pages i tok =
     (case tok of
        None \<Rightarrow> ok_response first_page
      | Some t \<Rightarrow> if t = JStr ''abc'' then ok_response second_page else Inl TransportError)"

definition demo_upstream :: "nat \<Rightarrow> http_request \<Rightarrow> error + http_response" where
  "demo_upstream i req = demo_pages i (dict_get (req_params req) ''page_token'')"

definition failing_upstream :: "nat \<Rightarrow> http_request \<Rightarrow> error + http_response" where
  "failing_upstream i req =
     (case dict_get (req_params req) ''page_token'' of
        None \<Rightarrow> ok_response first_page
      | Some t \<Rightarrow> Inl TransportError)"

text \<open>An upstream whose second page has a row that is no dictionary after a good one.\<close>

definition bad_page :: json where
  "bad_page =
     JDict [(''code'', JInt 0),
            (''data'', JDict [(''orders'', JList [demo_order ''c'', JInt 5])])]"

definition bad_row_upstream :: "nat \<Rightarrow> http_request \<Rightarrow> error + http_response" where
  "bad_row_upstream i req =
     (case dict_get (req_params req) ''page_token'' of
        None \<Rightarrow> ok_response first_page
      | Some t \<Rightarrow> ok_response bad_page)"

definition demo_watermark :: SyncMetadata where
  "demo_watermark =
     \<lparr>sync_type = ''orders'', last_sync_time = Some 500,
      last_record_time = Some (CDatetime 500), records_synced = 7, is_full_sync = 1,
      created_at = Some 100, updated_at = Some 500\<rparr>"

definition empty_store :: store where
  "empty_store = \<lparr>orders = [], products = [], sync_metadata = Map.empty\<rparr>"

definition empty_session :: session where
  "empty_session = \<lparr>committed = empty_store, pending = empty_store\<rparr>"

definition marked_store :: store where
  "marked_store = empty_store\<lparr>sync_metadata := [''orders'' \<mapsto> demo_watermark]\<rparr>"

definition marked_session :: session where
  "marked_session = \<lparr>committed = marked_store, pending = marked_store\<rparr>"

text \<open>
  An upstream that answers the first request with the first page and every request with a
  token with HTTP 200 and the code 105.
\<close>

definition refusal :: pydict where
  "refusal = [(''code'', JInt 105), (''message'', JStr ''denied'')]"

definition refusing_upstream :: "nat \<Rightarrow> http_request \<Rightarrow> error + http_response" where
  "refusing_upstream i req =
     (case dict_get (req_params req) ''page_token'' of
        None \<Rightarrow> ok_response first_page
      | Some t \<Rightarrow> Inr \<lparr>status_code = 200, json_body = Some (JDict refusal)\<rparr>)"

text \<open>What a pass leaves: its result, its requests, and the stored watermark of the orders.\<close>

definition stored_watermark :: "session \<Rightarrow> SyncMetadata option" where
  "stored_watermark s = sync_metadata (committed s) ''orders''"

definition pass_result ::
  "((error + nat) \<times> session \<times> http_request list \<times> json list list) option
     \<Rightarrow> (error + nat) option" where
  "pass_result r = map_option fst r"

definition pass_session ::
  "((error + nat) \<times> session \<times> http_request list \<times> json list list) option
     \<Rightarrow> session option" where
  "pass_session r = map_option (fst \<circ> snd) r"

definition pass_requests ::
  "((error + nat) \<times> session \<times> http_request list \<times> json list list) option
     \<Rightarrow> http_request list" where
  "pass_requests r = (case r of None \<Rightarrow> [] | Some x \<Rightarrow> fst (snd (snd x)))"

text \<open>
  An upstream for the products: its first answer is a page of one product with \<open>more\<close>
  set, every later answer a page without products.
\<close>

definition product_upstream :: "nat \<Rightarrow> http_request \<Rightarrow> error + http_response" where
  "product_upstream i req =
     (if i = 0
      then ok_response
             (JDict [(''code'', JInt 0),
                     (''data'', JDict [(''products'', JList [JDict [(''id'', JStr ''p1'')]]),
                                       (''more'', JBool True)])])
      else ok_response (JDict [(''code'', JInt 0), (''data'', JDict [(''products'', JList [])])]))"

text \<open>
  What a pass over products leaves: its result, its requests, and the calls of
  \<open>get_products\<close> with page size and page number.
\<close>

definition products_result ::
  "((error + nat) \<times> session \<times> http_request list \<times> (int \<times> int) list) option
     \<Rightarrow> (error + nat) option" where
  "products_result r = map_option fst r"

definition products_requests ::
  "((error + nat) \<times> session \<times> http_request list \<times> (int \<times> int) list) option
     \<Rightarrow> http_request list" where
  "products_requests r = (case r of None \<Rightarrow> [] | Some x \<Rightarrow> fst (snd (snd x)))"

definition products_calls ::
  "((error + nat) \<times> session \<times> http_request list \<times> (int \<times> int) list) option
     \<Rightarrow> (int \<times> int) list" where
  "products_calls r = (case r of None \<Rightarrow> [] | Some x \<Rightarrow> snd (snd (snd x)))"

definition page_token_of :: "http_request \<Rightarrow> json option" where
  "page_token_of req = dict_get (req_params req) ''page_token''"

text \<open>The times of creation of the orders that a pass leaves stored.\<close>

definition pass_order_times ::
  "((error + nat) \<times> session \<times> http_request list \<times> json list list) option
     \<Rightarrow> colval option list" where
  "pass_order_times r =
     (case r of
        None \<Rightarrow> []
      | Some x \<Rightarrow>
          map (\<lambda>row. dict_get (snd row) ''created_time'') (orders (committed (fst (snd x)))))"

text \<open>A second pass over orders on the session that a first pass has left on returning.\<close>

definition second_pass ::
  "nat \<Rightarrow> pylib \<Rightarrow> settings \<Rightarrow> (nat \<Rightarrow> http_request \<Rightarrow> error + http_response) \<Rightarrow> int
     \<Rightarrow> (nat \<Rightarrow> http_request \<Rightarrow> error + http_response) \<Rightarrow> int
     \<Rightarrow> session \<Rightarrow> string \<Rightarrow> int \<Rightarrow> int option \<Rightarrow> bool \<Rightarrow> bool
     \<Rightarrow> ((error + nat) \<times> session \<times> http_request list \<times> json list list) option" where
  "second_pass fuel lib cfg up now up' now' s token days_back max_orders force force' =
     (case sync_orders_task fuel lib cfg up now s token days_back max_orders force of
        Some (Inr n, s1, q, p) \<Rightarrow>
          sync_orders_task fuel lib cfg up' now' s1 token days_back max_orders force'
      | _ \<Rightarrow> None)"

section \<open>Notions for the proofs\<close>

text \<open>
  What the rounds of the loop do to the stored state between two states of the loop: the
  rows of the pages that were committed in between are stored, in their order, and the
  watermark rows are as they were.
\<close>

definition round_effect :: "pylib \<Rightarrow> int \<Rightarrow> loop_state \<Rightarrow> loop_state \<Rightarrow> bool" where
  "round_effect lib now st st' =
     ((\<exists>new. pages_done st' = pages_done st @ new \<and>
        orders (committed (db st')) =
          fold (store_raw lib now) (concat new) (orders (committed (db st)))) \<and>
      sync_metadata (committed (db st')) = sync_metadata (committed (db st)))"

text \<open>The keys that the parameters of an orders-search request can have.\<close>

definition orders_param_keys :: "string set" where
  "orders_param_keys =
     {''page_size'', ''version'', ''sort_field'', ''sort_order'', ''page_token'',
      ''shop_cipher'', ''shop_id'', ''app_key'', ''sign'', ''timestamp'', ''access_token''}"

text \<open>The \<open>page_token\<close> parameter that \<open>get_orders\<close> sets for the token it is handed.\<close>

definition token_param :: "json \<Rightarrow> json option" where
  "token_param t = (if truthy t then Some t else None)"

text \<open>
  A response with HTTP status 200 whose document carries a \<open>code\<close> other than zero.
\<close>

definition refused :: "error + http_response \<Rightarrow> bool" where
  "refused r =
     (case r of
        Inl e \<Rightarrow> False
      | Inr resp \<Rightarrow>
          status_code resp = 200 \<and>
          (case json_body resp of
             Some (JDict d) \<Rightarrow> ne_zero (get_none d ''code'')
           | _ \<Rightarrow> False))"

text \<open>The first exception that the transformation of the rows of a page raises.\<close>

fun page_error :: "pylib \<Rightarrow> json list \<Rightarrow> error option" where
  "page_error lib [] = None"
| "page_error lib (raw_order # rest) =
     (case transform_order lib raw_order of
        Inl e \<Rightarrow> Some e
      | Inr od \<Rightarrow> page_error lib rest)"

text \<open>A response that is a page of rows all of which can be transformed.\<close>

definition page_ok :: "pylib \<Rightarrow> error + http_response \<Rightarrow> bool" where
  "page_ok lib r =
     (case read_page (received r) of
        Inr (Some (raws, tok)) \<Rightarrow> page_error lib raws = None
      | _ \<Rightarrow> False)"

text \<open>
  The exception that reading a response and transforming its rows raises, if any, and the
  rows of the page that a response carries.
\<close>

definition page_failure :: "pylib \<Rightarrow> error + http_response \<Rightarrow> error option" where
  "page_failure lib r =
     (case read_page (received r) of
        Inl e \<Rightarrow> Some e
      | Inr None \<Rightarrow> None
      | Inr (Some (raws, tok)) \<Rightarrow> page_error lib raws)"

definition page_rows :: "error + http_response \<Rightarrow> json list" where
  "page_rows r =
     (case read_page (received r) of
        Inr (Some (raws, tok)) \<Rightarrow> raws
      | _ \<Rightarrow> [])"

text \<open>
  The pages answered to a run of requests, the first of which is the one after \<open>i\<close>
  others.
\<close>

fun fetched ::
  "(nat \<Rightarrow> http_request \<Rightarrow> error + http_response) \<Rightarrow> nat \<Rightarrow> http_request list
     \<Rightarrow> json list list" where
  "fetched up i [] = []"
| "fetched up i (req # rest) = page_rows (up i req) # fetched up (Suc i) rest"

text \<open>
  A run of requests, the first of which is the one after \<open>i\<close> others and carries the
  \<open>page_token\<close> parameter \<open>p\<close>: each later one carries the token of the response to the one
  before it, every response but the last is a page of rows that can be transformed, and no
  request has a parameter beyond those of the orders search or anything in its body.
\<close>

fun chained ::
  "pylib \<Rightarrow> (nat \<Rightarrow> http_request \<Rightarrow> error + http_response) \<Rightarrow> nat \<Rightarrow> json option
     \<Rightarrow> http_request list \<Rightarrow> bool" where
  "chained lib up i p [] = True"
| "chained lib up i p (req # rest) =
     (dict_get (req_params req) ''page_token'' = p \<and>
      fst ` set (req_params req) \<subseteq> orders_param_keys \<and>
      req_json req = Some (JDict []) \<and>
      (rest = [] \<or>
       (\<not> refused (up i req) \<and> page_ok lib (up i req) \<and>
        truthy (next_page_token (up i req)) \<and>
        chained lib up (Suc i) (Some (next_page_token (up i req))) rest)))"

text \<open>The ids under which the rows of a page are stored.\<close>

definition stored_ids :: "pylib \<Rightarrow> json list \<Rightarrow> colval set" where
  "stored_ids lib raws =
     {oid. \<exists>raw_order \<in> set raws. \<exists>od. transform_order lib raw_order = Inr od \<and>
             dict_get od ''id'' = Some oid}"

text \<open>The keys that the parameters of a products-search request can have.\<close>

definition products_param_keys :: "string set" where
  "products_param_keys =
     {''page_size'', ''version'', ''shop_cipher'', ''shop_id'', ''app_key'', ''sign'',
      ''timestamp'', ''access_token''}"

section \<open>Dictionaries\<close>

lemma map_of_dict_pop: "map_of (dict_pop d k) = (map_of d)(k := None)"
  by (induction d) (auto simp: dict_pop_def)

lemma map_of_dict_set: "map_of (dict_set d k v) = (map_of d)(k \<mapsto> v)"
  by (induction d) auto

lemma dict_get_dict_set:
  "dict_get (dict_set d k v) k' = (if k' = k then Some v else dict_get d k')"
  by (simp add: dict_get_def map_of_dict_set)

lemma dict_get_dict_pop:
  "dict_get (dict_pop d k) k' = (if k' = k then None else dict_get d k')"
  by (simp add: dict_get_def map_of_dict_pop)

lemma keys_dict_set: "fst ` set (dict_set d k v) = insert k (fst ` set d)"
  by (simp add: dom_map_of_conv_image_fst [symmetric] map_of_dict_set)

lemma distinct_dict_pop: "distinct (map fst d) \<Longrightarrow> distinct (map fst (dict_pop d k))"
  by (simp add: dict_pop_def distinct_map_filter)

lemma distinct_dict_set: "distinct (map fst d) \<Longrightarrow> distinct (map fst (dict_set d k v))"
proof (induction d)
  case Nil
  then show ?case by simp
next
  case (Cons a d)
  obtain k' v' where a: "a = (k', v')" by (cases a)
  from Cons show ?case
    by (auto simp: a keys_dict_set)
qed

section \<open>The request signer\<close>

text \<open>What \<open>_generate_signature\<close> computes, and the heap it leaves.\<close>

lemma generate_signature_eq:
  assumes "r < length h"
  shows "generate_signature lib self now path r body h =
           ((hmac_sha256_hex lib (app_secret self)
               (app_secret self @
                (path @ concat (map (\<lambda>(k, v). k @ py_str lib v)
                                 (sort_key fst (params_for_sign now (h ! r)))) @ body) @
                app_secret self),
             str_of_int now),
            h @ [params_for_sign now (h ! r)])"
  using assms
  by (simp add: generate_signature_def heap_copy_def params_for_sign_def Let_def nth_append)

text \<open>
  Sorting a dictionary by key and walking its sorted keys give the same parameter string.
\<close>

lemma sorted_param_string:
  assumes "distinct (map fst d)"
  shows "concat (map (\<lambda>(k, v). k @ f v) (sort_key fst d)) =
         concat (map (\<lambda>k. k @ f (the (map_of d k))) (sorted_list_of_set (dom (map_of d))))"
proof -
  let ?s = "sort_key fst d"
  have ds: "distinct (map fst ?s)"
    using assms by (simp add: distinct_map)
  have keys: "map fst ?s = sorted_list_of_set (dom (map_of d))"
  proof -
    have "sorted (map fst ?s)" by simp
    moreover have "set (map fst ?s) = dom (map_of d)"
      by (simp add: dom_map_of_conv_image_fst)
    ultimately show ?thesis
      using ds by (metis sorted_list_of_set.idem_if_sorted_distinct)
  qed
  have "map (\<lambda>(k, v). k @ f v) ?s = map (\<lambda>kv. fst kv @ f (the (map_of d (fst kv)))) ?s"
  proof (rule map_cong[OF refl])
    fix kv assume "kv \<in> set ?s"
    then have "kv \<in> set d" by simp
    with assms have "map_of d (fst kv) = Some (snd kv)"
      by (metis map_of_is_SomeI prod.collapse)
    then show "(case kv of (k, v) \<Rightarrow> k @ f v) = fst kv @ f (the (map_of d (fst kv)))"
      by (cases kv) simp
  qed
  also have "\<dots> = map (\<lambda>k. k @ f (the (map_of d k))) (map fst ?s)"
    by (simp add: comp_def)
  finally show ?thesis by (simp add: keys)
qed

lemma map_of_params_for_sign:
  "map_of (params_for_sign now d) =
     (map_of d)(''sign'' := None, ''timestamp'' \<mapsto> JStr (str_of_int now))"
  by (auto simp: params_for_sign_def map_of_dict_set map_of_dict_pop)

lemma distinct_params_for_sign:
  "distinct (map fst d) \<Longrightarrow> distinct (map fst (params_for_sign now d))"
  by (simp add: params_for_sign_def distinct_dict_set distinct_dict_pop)

lemma generate_signature_spec:
  assumes "r < length h" and "distinct (map fst (h ! r))"
  shows "fst (generate_signature lib self now path r body h) =
           (spec_signature lib (app_secret self) path
              ((map_of (h ! r))(''sign'' := None, ''timestamp'' \<mapsto> JStr (str_of_int now))) body,
            str_of_int now)"
  using assms
  by (simp add: generate_signature_eq spec_signature_def spec_param_string_def
      sorted_param_string [OF distinct_params_for_sign] map_of_params_for_sign)

text \<open>
  C2. For a path, a well-formed parameter dictionary and a body, the signature that
  \<open>_generate_signature\<close> returns is the hexadecimal HMAC-SHA256, keyed by the app secret, of
  secret + path + parameter string + body + secret, where the parameter string runs through
  the keys in ascending order and puts each key before its stringified value with nothing
  between; the parameters are the caller's without \<open>sign\<close>, with \<open>timestamp\<close> set to the
  time of the call. The timestamp is returned with it.
\<close>

theorem signature_is_hmac_of_canonical_string:
  assumes "params < length h" and "distinct (map fst (h ! params))"
  shows "fst (generate_signature lib self now path params body h) =
           (spec_signature lib (app_secret self) path
              ((map_of (h ! params))
                 (''sign'' := None, ''timestamp'' \<mapsto> JStr (str_of_int now))) body,
            str_of_int now)"
  using assms by (rule generate_signature_spec)

theorem signature_is_hmac_of_canonical_string_witness:
  "0 < length [demo_params] \<and> distinct (map fst ([demo_params] ! 0)) \<and>
   fst (generate_signature demo_lib demo_client 1000 ''/p'' 0 ''{}'' [demo_params]) =
     (spec_signature demo_lib ''S'' ''/p''
        ((map_of demo_params)(''sign'' := None, ''timestamp'' \<mapsto> JStr ''1000'')) ''{}'',
      ''1000'') \<and>
   fst (generate_signature demo_lib demo_client 1000 ''/p'' 0 ''{}'' [demo_params]) =
     (''S/pavb2timestamp1000{}S'', ''1000'')"
proof -
  have len: "0 < length [demo_params]" by simp
  have dist: "distinct (map fst ([demo_params] ! 0))" by (simp add: demo_params_def)
  have ts: "str_of_int 1000 = ''1000''" by code_simp
  have sec: "app_secret demo_client = ''S''"
    by (simp add: demo_client_def init_client_def demo_settings_def)
  have val: "fst (generate_signature demo_lib demo_client 1000 ''/p'' 0 ''{}'' [demo_params]) =
     (''S/pavb2timestamp1000{}S'', ''1000'')" by code_simp
  from signature_is_hmac_of_canonical_string [OF len dist, of demo_lib demo_client 1000 "''/p''" "''{}''"]
  show ?thesis using len dist val by (simp add: ts sec)
qed

text \<open>
  C4. Two parameter dictionaries with the same key-value pairs, entered in different orders,
  get the same signature for the same path, body and time.
\<close>

theorem signature_ignores_insertion_order:
  assumes "p < length h" and "q < length h'"
    and "distinct (map fst (h ! p))" and "distinct (map fst (h' ! q))"
    and "set (h ! p) = set (h' ! q)"
  shows "fst (generate_signature lib self now path p body h) =
         fst (generate_signature lib self now path q body h')"
proof -
  have "map_of (h ! p) = map_of (h' ! q)"
    using assms(3-5) by (simp add: map_of_inject_set)
  then show ?thesis
    using assms(1-4) by (simp add: generate_signature_spec)
qed

theorem signature_ignores_insertion_order_witness:
  "0 < length [demo_params] \<and> 0 < length [demo_params_reordered] \<and>
   distinct (map fst ([demo_params] ! 0)) \<and> distinct (map fst ([demo_params_reordered] ! 0)) \<and>
   set ([demo_params] ! 0) = set ([demo_params_reordered] ! 0) \<and>
   demo_params \<noteq> demo_params_reordered \<and>
   fst (generate_signature demo_lib demo_client 1000 ''/p'' 0 ''{}'' [demo_params]) =
   fst (generate_signature demo_lib demo_client 1000 ''/p'' 0 ''{}'' [demo_params_reordered])"
proof -
  have a: "0 < length [demo_params]" and b: "0 < length [demo_params_reordered]" by simp_all
  have c: "distinct (map fst ([demo_params] ! 0))" by (simp add: demo_params_def)
  have d: "distinct (map fst ([demo_params_reordered] ! 0))"
    by (simp add: demo_params_reordered_def)
  have e: "set ([demo_params] ! 0) = set ([demo_params_reordered] ! 0)"
    by (auto simp: demo_params_def demo_params_reordered_def)
  have f: "demo_params \<noteq> demo_params_reordered"
    by (simp add: demo_params_def demo_params_reordered_def)
  from signature_ignores_insertion_order [OF a b c d e]
  show ?thesis using a b c d e f by blast
qed

text \<open>
  C10. \<open>_generate_signature\<close> leaves the caller's parameter dictionary as it was: the
  object at the caller's reference holds the same entries after the call, as does every
  object that existed before; the changes go to the copy, a new object.
\<close>

theorem generate_signature_keeps_params:
  assumes "params < length h"
  shows "snd (generate_signature lib self now path params body h) ! params = h ! params \<and>
         take (length h) (snd (generate_signature lib self now path params body h)) = h"
  using assms by (simp add: generate_signature_eq nth_append)

theorem generate_signature_keeps_params_witness:
  "0 < length [demo_params] \<and>
   snd (generate_signature demo_lib demo_client 1000 ''/p'' 0 ''{}'' [demo_params]) ! 0 =
     demo_params \<and>
   snd (generate_signature demo_lib demo_client 1000 ''/p'' 0 ''{}'' [demo_params]) =
     [demo_params, [(''b'', JInt 2), (''a'', JStr ''v''), (''timestamp'', JStr ''1000'')]]"
proof -
  have a: "0 < length [demo_params]" by simp
  have v: "snd (generate_signature demo_lib demo_client 1000 ''/p'' 0 ''{}'' [demo_params]) =
     [demo_params, [(''b'', JInt 2), (''a'', JStr ''v''), (''timestamp'', JStr ''1000'')]]"
    by code_simp
  from generate_signature_keeps_params [OF a, of demo_lib demo_client 1000 "''/p''" "''{}''"]
  show ?thesis using v by simp
qed

text \<open>The parameters that \<open>_make_request\<close> hands to the signer: the caller's and \<open>app_key\<close>.\<close>

lemma build_request_params:
  "req_params (build_request lib self now method path params body) =
     (let P = dict_set (case params of None \<Rightarrow> [] | Some d \<Rightarrow> d) ''app_key'' (JStr (app_key self));
          sg = fst (fst (generate_signature lib self now path 0 (body_str lib method body) [P]));
          p3 = dict_set (dict_set P ''sign'' (JStr sg)) ''timestamp'' (JStr (str_of_int now))
      in if access_token self \<noteq> []
         then dict_set p3 ''access_token'' (JStr (access_token self)) else p3)"
  by (simp add: build_request_def generate_signature_eq Let_def)

lemma build_request_sign:
  "dict_get (req_params (build_request lib self now method path params body)) ''sign'' =
     Some (JStr (fst (fst (generate_signature lib self now path 0 (body_str lib method body)
       [dict_set (case params of None \<Rightarrow> [] | Some d \<Rightarrow> d) ''app_key'' (JStr (app_key self))]))))"
  by (simp add: build_request_params Let_def dict_get_dict_set)

text \<open>
  C3. For a POST whose body is \<open>None\<close> or the empty dictionary, the body string that
  \<open>_make_request\<close> hands to the signer is the two characters \<open>{}\<close>, and the signature of
  the request is the one computed with that body string; so the request with \<open>body=None\<close>
  and the request with \<open>body={}\<close>, alike in everything else, carry the same signature.
\<close>

theorem empty_post_body_signed_as_braces:
  "body_str lib ''POST'' None = ''{}'' \<and>
   body_str lib ''POST'' (Some (JDict [])) = ''{}'' \<and>
   dict_get (req_params (build_request lib self now ''POST'' path params None)) ''sign'' =
     Some (JStr (fst (fst (generate_signature lib self now path 0 ''{}''
       [dict_set (case params of None \<Rightarrow> [] | Some d \<Rightarrow> d) ''app_key''
          (JStr (app_key self))])))) \<and>
   dict_get (req_params (build_request lib self now ''POST'' path params None)) ''sign'' =
   dict_get (req_params (build_request lib self now ''POST'' path params (Some (JDict []))))
     ''sign''"
  by (simp add: build_request_sign body_str_def)

lemma params_for_sign_get_sign: "dict_get (params_for_sign now d) ''sign'' = None"
  by (simp add: params_for_sign_def dict_get_dict_set dict_get_dict_pop)

lemma params_for_sign_get_timestamp:
  "dict_get (params_for_sign now d) ''timestamp'' = Some (JStr (str_of_int now))"
  by (simp add: params_for_sign_def dict_get_dict_set)

lemma params_for_sign_stripped:
  "params_for_sign now (dict_pop (dict_pop d ''sign'') ''timestamp'') = params_for_sign now d"
proof -
  have "dict_pop (dict_pop (dict_pop (dict_pop d ''sign'') ''timestamp'') ''sign'') ''timestamp''
        = dict_pop (dict_pop d ''sign'') ''timestamp''"
    by (auto simp: dict_pop_def intro: filter_cong)
  then show ?thesis by (simp add: params_for_sign_def)
qed

text \<open>
  C5. In the request that \<open>_make_request\<close> builds, the signature is computed from the
  caller's parameters and \<open>app_key\<close> after \<open>sign\<close> has been removed and \<open>timestamp\<close> replaced
  by the time of the call: the signed dictionary has no \<open>sign\<close>, its \<open>timestamp\<close> is the new
  one, and it is the same whether or not the caller's dictionary had the two entries. The
  access token of the client has no part in the signature. The outgoing parameters carry
  the signature as \<open>sign\<close>, the timestamp, and the access token when the client has one,
  all three set after the signature was computed.
\<close>

theorem sign_timestamp_token_added_after_signing:
  "dict_get (req_params (build_request lib self now method path params body)) ''sign'' =
     Some (JStr (hmac_sha256_hex lib (app_secret self)
       (app_secret self @
        (path @ concat (map (\<lambda>(k, v). k @ py_str lib v)
           (sort_key fst (params_for_sign now
              (dict_set (case params of None \<Rightarrow> [] | Some d \<Rightarrow> d) ''app_key''
                 (JStr (app_key self)))))) @ body_str lib method body) @
        app_secret self))) \<and>
   dict_get (params_for_sign now
      (dict_set (case params of None \<Rightarrow> [] | Some d \<Rightarrow> d) ''app_key'' (JStr (app_key self))))
      ''sign'' = None \<and>
   dict_get (params_for_sign now
      (dict_set (case params of None \<Rightarrow> [] | Some d \<Rightarrow> d) ''app_key'' (JStr (app_key self))))
      ''timestamp'' = Some (JStr (str_of_int now)) \<and>
   params_for_sign now
      (dict_pop (dict_pop
         (dict_set (case params of None \<Rightarrow> [] | Some d \<Rightarrow> d) ''app_key'' (JStr (app_key self)))
         ''sign'') ''timestamp'') =
   params_for_sign now
      (dict_set (case params of None \<Rightarrow> [] | Some d \<Rightarrow> d) ''app_key'' (JStr (app_key self))) \<and>
   dict_get (req_params (build_request lib (self\<lparr>access_token := tok\<rparr>) now method path
      params body)) ''sign'' =
   dict_get (req_params (build_request lib self now method path params body)) ''sign'' \<and>
   dict_get (req_params (build_request lib self now method path params body)) ''timestamp'' =
     Some (JStr (str_of_int now)) \<and>
   dict_get (req_params (build_request lib self now method path params body)) ''access_token'' =
     (if access_token self \<noteq> [] then Some (JStr (access_token self))
      else dict_get (case params of None \<Rightarrow> [] | Some d \<Rightarrow> d) ''access_token'')"
  by (simp add: build_request_sign generate_signature_eq params_for_sign_get_sign
      params_for_sign_get_timestamp params_for_sign_stripped)
    (simp add: build_request_params Let_def dict_get_dict_set)

section \<open>The sync engine\<close>

lemma transform_order_keys:
  assumes "transform_order lib raw_order = Inr od"
  shows "map fst od = [''id'', ''order_number'', ''status'', ''created_time'', ''paid_time'',
      ''shipped_time'', ''delivered_time'', ''total_amount'', ''currency'', ''item_count'',
      ''customer_id'', ''shipping_provider'', ''tracking_number'', ''raw_data'']"
  using assms
  by (auto simp: transform_order_def Let_def split: sum.splits)

text \<open>
  The dictionary that \<open>transform_order\<close> returns has no key \<open>created_at\<close> (its key is
  \<open>created_time\<close>), so the tracking of lines 116 to 122 never finds a time.
\<close>

lemma transform_order_no_created_at:
  assumes "transform_order lib raw_order = Inr od"
  shows "dict_get od ''created_at'' = None"
proof -
  have "''created_at'' \<notin> set (map fst od)"
    by (simp add: transform_order_keys [OF assms])
  then show ?thesis
    by (simp add: dict_get_def map_of_eq_None_iff)
qed

lemma transform_order_has_id:
  assumes "transform_order lib raw_order = Inr od"
  shows "\<exists>oid. dict_get od ''id'' = Some oid"
proof -
  have "''id'' \<in> set (map fst od)"
    by (simp add: transform_order_keys [OF assms])
  then show ?thesis
    by (metis dict_get_def domD dom_map_of_conv_image_fst set_map)
qed

lemma track_order_time_transformed:
  assumes "transform_order lib raw_order = Inr od"
  shows "track_order_time lib od m = Inr m"
  by (simp add: track_order_time_def transform_order_no_created_at [OF assms])

lemma save_order_eq:
  "save_order lib now raw_order st =
     (case transform_order lib raw_order of
        Inl e \<Rightarrow> (Some e, st)
      | Inr od \<Rightarrow>
          if violation st then (Some IntegrityError, st)
          else (None, st\<lparr>db := upsert_order now (the (dict_get od ''id'')) od (db st),
                    violation := refuses_order (the (dict_get od ''id'')) od
                                   (orders (pending (db st))),
                    synced_count := synced_count st + 1\<rparr>))"
proof (cases "transform_order lib raw_order")
  case (Inl e)
  then show ?thesis by (simp add: save_order_def)
next
  case (Inr od)
  from transform_order_has_id [OF Inr] obtain oid where "dict_get od ''id'' = Some oid" ..
  then show ?thesis
    by (simp add: save_order_def Inr Let_def track_order_time_transformed [OF Inr])
qed

lemma save_order_frame:
  assumes "save_order lib now raw_order st = (r, st')"
  shows "sent st' = sent st \<and> pages_done st' = pages_done st \<and> page_token st' = page_token st \<and>
         most_recent_order_time st' = most_recent_order_time st \<and>
         committed (db st') = committed (db st) \<and>
         sync_metadata (pending (db st')) = sync_metadata (pending (db st)) \<and>
         products (pending (db st')) = products (pending (db st))"
  using assms
  by (auto simp: save_order_eq upsert_order_def split: sum.splits if_splits)

lemma save_order_stored:
  assumes "save_order lib now raw_order st = (None, st')"
  shows "orders (pending (db st')) = store_raw lib now raw_order (orders (pending (db st))) \<and>
         synced_count st' = synced_count st + 1"
proof (cases "transform_order lib raw_order")
  case (Inl e)
  with assms show ?thesis by (simp add: save_order_eq)
next
  case (Inr od)
  from transform_order_has_id [OF Inr] obtain oid where "dict_get od ''id'' = Some oid" ..
  with assms Inr show ?thesis
    by (auto simp: save_order_eq store_raw_def upsert_order_def split: if_splits)
qed

lemma save_orders_frame:
  assumes "save_orders lib now raws st = (r, st')"
  shows "sent st' = sent st \<and> pages_done st' = pages_done st \<and> page_token st' = page_token st \<and>
         most_recent_order_time st' = most_recent_order_time st \<and>
         committed (db st') = committed (db st) \<and>
         sync_metadata (pending (db st')) = sync_metadata (pending (db st)) \<and>
         products (pending (db st')) = products (pending (db st))"
  using assms
proof (induction raws arbitrary: st)
  case Nil
  then show ?case by simp
next
  case (Cons raw_order rest)
  obtain r1 st1 where s1: "save_order lib now raw_order st = (r1, st1)"
    by (cases "save_order lib now raw_order st")
  note f1 = save_order_frame [OF s1]
  show ?case
  proof (cases r1)
    case None
    with Cons.prems s1 have "save_orders lib now rest st1 = (r, st')" by simp
    from Cons.IH [OF this] f1 show ?thesis by simp
  next
    case (Some e)
    with Cons.prems s1 have "st' = st1" by simp
    with f1 show ?thesis by simp
  qed
qed

lemma save_orders_stored:
  assumes "save_orders lib now raws st = (None, st')"
  shows "orders (pending (db st')) = fold (store_raw lib now) raws (orders (pending (db st))) \<and>
         synced_count st' = synced_count st + length raws"
  using assms
proof (induction raws arbitrary: st)
  case Nil
  then show ?case by simp
next
  case (Cons raw_order rest)
  obtain r1 st1 where s1: "save_order lib now raw_order st = (r1, st1)"
    by (cases "save_order lib now raw_order st")
  show ?case
  proof (cases r1)
    case None
    with Cons.prems s1 have "save_orders lib now rest st1 = (None, st')" by simp
    from Cons.IH [OF this] save_order_stored [OF s1 [unfolded None]] show ?thesis by simp
  next
    case (Some e)
    with Cons.prems s1 show ?thesis by simp
  qed
qed

text \<open>
  The exception that the saving of a page raises is the first that a transformation of its
  rows raises, unless the database has refused an earlier row of the page.
\<close>

lemma save_orders_error:
  "fst (save_orders lib now raws st) = page_error lib raws \<or>
   fst (save_orders lib now raws st) = Some IntegrityError"
proof (induction raws arbitrary: st)
  case Nil
  then show ?case by simp
next
  case (Cons raw_order rest)
  show ?case
  proof (cases "transform_order lib raw_order")
    case (Inl e)
    then show ?thesis by (simp add: save_order_eq)
  next
    case (Inr od)
    show ?thesis
    proof (cases "violation st")
      case True
      with Inr show ?thesis by (simp add: save_order_eq)
    next
      case False
      with Inr Cons.IH show ?thesis by (simp add: save_order_eq)
    qed
  qed
qed

text \<open>
  What one round does to a session without pending changes: it commits the rows of at most
  one page and never touches the watermark.
\<close>

lemma round_effect_refl: "round_effect lib now st st"
  by (simp add: round_effect_def)

lemma round_effect_trans:
  "round_effect lib now st st' \<Longrightarrow> round_effect lib now st' st'' \<Longrightarrow> round_effect lib now st st''"
  by (auto simp: round_effect_def)

lemma handle_response_effect:
  assumes clean: "pending (db st1) = committed (db st1)"
  shows "case handle_response lib now max_orders r st1 of
           Stop out st' \<Rightarrow> round_effect lib now st1 st' \<and>
              (out = Left \<longrightarrow> pending (db st') = committed (db st') \<and>
                 (\<not> violation st1 \<longrightarrow> \<not> violation st'))
         | Continue st' \<Rightarrow> round_effect lib now st1 st' \<and> pending (db st') = committed (db st') \<and>
              \<not> violation st'"
proof (cases "read_page r")
  case (Inl e)
  then show ?thesis by (simp add: handle_response_def round_effect_refl)
next
  case (Inr page)
  show ?thesis
  proof (cases page)
    case None
    with Inr clean show ?thesis by (simp add: handle_response_def round_effect_refl)
  next
    case (Some p)
    obtain raws tok where p: "p = (raws, tok)" by (cases p)
    obtain r2 st2 where s: "save_orders lib now raws st1 = (r2, st2)"
      by (cases "save_orders lib now raws st1")
    note f = save_orders_frame [OF s]
    have a: "round_effect lib now st1 st2"
      using f by (simp add: round_effect_def)
    show ?thesis
    proof (cases r2)
      case (Some e)
      with Inr \<open>page = Some p\<close> p s a show ?thesis by (simp add: handle_response_def)
    next
      case None
      with s have "save_orders lib now raws st1 = (None, st2)" by simp
      note st = save_orders_stored [OF this]
      let ?st3 = "st2\<lparr>db := commit (db st2), pages_done := pages_done st2 @ [raws],
                     page_token := tok\<rparr>"
      have b: "round_effect lib now st1 ?st3"
        using st f clean by (simp add: round_effect_def commit_def)
      have c: "pending (db ?st3) = committed (db ?st3)" by (simp add: commit_def)
      from Inr \<open>page = Some p\<close> p s None a b c show ?thesis
        by (simp add: handle_response_def Let_def)
    qed
  qed
qed

lemma orders_round_effect:
  assumes clean: "pending (db st) = committed (db st)"
  shows "case orders_round lib client up now start_time end_time max_orders st of
           Stop out st' \<Rightarrow> round_effect lib now st st' \<and>
              (out = Left \<longrightarrow> pending (db st') = committed (db st') \<and>
                 (\<not> violation st \<longrightarrow> \<not> violation st'))
         | Continue st' \<Rightarrow> round_effect lib now st st' \<and> pending (db st') = committed (db st') \<and>
              \<not> violation st'"
proof -
  obtain r reqs where g: "get_orders lib client (up (length (sent st))) now (time_arg start_time)
             (time_arg end_time) 100 (page_token st) None ''create_time'' ''DESC'' = (r, reqs)"
    by (cases "get_orders lib client (up (length (sent st))) now (time_arg start_time)
             (time_arg end_time) 100 (page_token st) None ''create_time'' ''DESC''")
  let ?st1 = "st\<lparr>sent := sent st @ reqs\<rparr>"
  have e: "orders_round lib client up now start_time end_time max_orders st =
      handle_response lib now max_orders r ?st1"
    by (simp add: orders_round_def g)
  have c1: "pending (db ?st1) = committed (db ?st1)" using clean by simp
  have re: "round_effect lib now ?st1 st' \<Longrightarrow> round_effect lib now st st'" for st'
    by (simp add: round_effect_def)
  note h = handle_response_effect [OF c1, where lib = lib and now = now
      and max_orders = max_orders and r = r]
  show ?thesis
  proof (cases "handle_response lib now max_orders r ?st1")
    case (Stop out st')
    with h re show ?thesis by (simp add: e)
  next
    case (Continue st')
    with h re show ?thesis by (simp add: e)
  qed
qed

lemma orders_loop_effect:
  assumes "pending (db st) = committed (db st)"
    and "orders_loop n lib client up now start_time end_time max_orders st = (out, st')"
  shows "round_effect lib now st st' \<and>
         (out = Left \<longrightarrow> pending (db st') = committed (db st') \<and>
            (\<not> violation st \<longrightarrow> \<not> violation st'))"
  using assms
proof (induction n arbitrary: st)
  case 0
  then show ?case by (simp add: round_effect_refl)
next
  case (Suc n)
  note eff = orders_round_effect [OF Suc.prems(1), where lib = lib and client = client and up = up
    and now = now and start_time = start_time and end_time = end_time and max_orders = max_orders]
  show ?case
  proof (cases "orders_round lib client up now start_time end_time max_orders st")
    case (Stop out1 st1)
    with Suc.prems(2) have "out1 = out" "st1 = st'" by simp_all
    with eff Stop show ?thesis by simp
  next
    case (Continue st1)
    with eff have e1: "round_effect lib now st st1" and c1: "pending (db st1) = committed (db st1)"
      and v1: "\<not> violation st1"
      by simp_all
    from Suc.prems(2) Continue
    have "orders_loop n lib client up now start_time end_time max_orders st1 = (out, st')"
      by simp
    from Suc.IH [OF c1 this] e1 v1 show ?thesis
      by (blast intro: round_effect_trans)
  qed
qed

text \<open>The loop never sets \<open>most_recent_order_time\<close>.\<close>

lemma handle_response_most_recent:
  "case handle_response lib now max_orders r st1 of
     Stop out st' \<Rightarrow> most_recent_order_time st' = most_recent_order_time st1
   | Continue st' \<Rightarrow> most_recent_order_time st' = most_recent_order_time st1"
proof (cases "read_page r")
  case (Inl e)
  then show ?thesis by (simp add: handle_response_def)
next
  case (Inr page)
  show ?thesis
  proof (cases page)
    case None
    with Inr show ?thesis by (simp add: handle_response_def)
  next
    case (Some p)
    obtain raws tok where p: "p = (raws, tok)" by (cases p)
    obtain r2 st2 where s: "save_orders lib now raws st1 = (r2, st2)"
      by (cases "save_orders lib now raws st1")
    note f = save_orders_frame [OF s]
    from Inr Some p s f show ?thesis
      by (cases r2) (simp_all add: handle_response_def Let_def)
  qed
qed

lemma orders_loop_most_recent:
  assumes "orders_loop n lib client up now start_time end_time max_orders st = (out, st')"
  shows "most_recent_order_time st' = most_recent_order_time st"
  using assms
proof (induction n arbitrary: st)
  case 0
  then show ?case by simp
next
  case (Suc n)
  obtain r reqs where g: "get_orders lib client (up (length (sent st))) now (time_arg start_time)
             (time_arg end_time) 100 (page_token st) None ''create_time'' ''DESC'' = (r, reqs)"
    by (cases "get_orders lib client (up (length (sent st))) now (time_arg start_time)
             (time_arg end_time) 100 (page_token st) None ''create_time'' ''DESC''")
  have e: "orders_round lib client up now start_time end_time max_orders st =
      handle_response lib now max_orders r (st\<lparr>sent := sent st @ reqs\<rparr>)"
    by (simp add: orders_round_def g)
  note h = handle_response_most_recent [where lib = lib and now = now
      and max_orders = max_orders and r = r and ?st1.0 = "st\<lparr>sent := sent st @ reqs\<rparr>"]
  show ?case
  proof (cases "orders_round lib client up now start_time end_time max_orders st")
    case (Stop out1 st1)
    with Suc.prems have "st1 = st'" by simp
    with h Stop e show ?thesis by simp
  next
    case (Continue st1)
    with Suc.prems
    have "orders_loop n lib client up now start_time end_time max_orders st1 = (out, st')"
      by simp
    from Suc.IH [OF this] h Continue e show ?thesis by simp
  qed
qed

text \<open>What \<open>get_orders\<close> sends.\<close>

lemma build_request_keys:
  "fst ` set (req_params (build_request lib self now method path (Some P) body)) \<subseteq>
     fst ` set P \<union> {''app_key'', ''sign'', ''timestamp'', ''access_token''}"
  by (auto simp: build_request_params Let_def keys_dict_set)

lemma build_request_get:
  assumes "k \<notin> {''app_key'', ''sign'', ''timestamp'', ''access_token''}"
  shows "dict_get (req_params (build_request lib self now method path (Some P) body)) k =
         dict_get P k"
  using assms by (simp add: build_request_params Let_def dict_get_dict_set)

lemma build_request_json:
  "req_json (build_request lib self now ''POST'' path params body) = body"
  by (simp add: build_request_def Let_def split: prod.splits)

lemma date_filter_error: "date_filter start_time end_time = Inl e \<Longrightarrow> e = AttributeError"
  by (cases start_time rule: int_timestamp.cases; cases end_time rule: int_timestamp.cases)
    (simp_all add: date_filter_def split: if_splits)

lemma date_filter_time_arg: "date_filter (time_arg a) (time_arg b) = Inr body \<Longrightarrow> body = []"
  by (cases a; cases b) (simp_all add: date_filter_def time_arg_def split: if_splits)

lemma orders_query_token:
  "dict_get (orders_query self page_size tok sort_field sort_order) ''page_token'' =
     token_param tok"
  by (simp add: orders_query_def Let_def dict_get_dict_set token_param_def)
    (simp add: dict_get_def)

lemma orders_query_keys:
  "fst ` set (orders_query self page_size tok sort_field sort_order) \<subseteq>
     {''page_size'', ''version'', ''sort_field'', ''sort_order'', ''page_token'',
      ''shop_cipher'', ''shop_id''}"
  by (auto simp: orders_query_def Let_def keys_dict_set)

lemma get_orders_cases:
  assumes "get_orders lib client send now (time_arg a) (time_arg b) page_size tok None
             sort_field sort_order = (r, reqs)"
  shows "(reqs = [] \<and> r = Inl AttributeError) \<or>
         (\<exists>req. reqs = [req] \<and> r = received (send req) \<and>
            dict_get (req_params req) ''page_token'' = token_param tok \<and>
            fst ` set (req_params req) \<subseteq> orders_param_keys \<and>
            req_json req = Some (JDict []))"
proof (cases "date_filter (time_arg a) (time_arg b)")
  case (Inl e)
  with assms date_filter_error [OF Inl] show ?thesis
    by (simp add: get_orders_def)
next
  case (Inr body0)
  note b0 = date_filter_time_arg [OF Inr]
  define req where "req = build_request lib client now ''POST'' ''/order/202309/orders/search''
     (Some (orders_query client page_size tok sort_field sort_order)) (Some (JDict []))"
  from assms Inr b0 have res: "reqs = [req]" "r = received (send req)"
    by (simp_all add: get_orders_def make_request_def Let_def req_def or_empty_def)
  have t: "dict_get (req_params req) ''page_token'' = token_param tok"
    by (simp add: req_def build_request_get orders_query_token)
  have j: "req_json req = Some (JDict [])"
    by (simp add: req_def build_request_json)
  have "fst ` set (req_params req) \<subseteq>
     fst ` set (orders_query client page_size tok sort_field sort_order) \<union>
       {''app_key'', ''sign'', ''timestamp'', ''access_token''}"
    unfolding req_def by (rule build_request_keys)
  with orders_query_keys [of client page_size tok sort_field sort_order]
  have k: "fst ` set (req_params req) \<subseteq> orders_param_keys"
    unfolding orders_param_keys_def by blast
  from res t k j show ?thesis by blast
qed

lemma received_Inr:
  assumes "received r = Inr j"
  shows "\<exists>resp. r = Inr resp \<and> json_body resp = Some j \<and>
           200 \<le> status_code resp \<and> status_code resp < 300"
  using assms
  by (auto simp: received_def read_response_def split: sum.splits if_splits option.splits)

lemma refused_received:
  assumes "refused r"
  shows "\<exists>d. received r = Inr (JDict d) \<and> ne_zero (get_none d ''code'')"
  using assms
  by (auto simp: refused_def received_def read_response_def
      split: sum.splits option.splits json.splits)

lemma as_dict_Inr: "as_dict v = Inr d \<longleftrightarrow> v = JDict d"
  by (cases v) (simp_all add: as_dict_def)

lemma refused_read_page:
  assumes "refused r"
  shows "read_page (received r) = Inr None"
  using refused_received [OF assms] by (auto simp: read_page_def as_dict_def)

lemma read_page_token:
  assumes "read_page (received r) = Inr (Some (raws, tok))"
  shows "tok = next_page_token r \<and> \<not> refused r"
proof -
  from assms obtain response where rec: "received r = Inr response"
    by (cases "received r") (simp_all add: read_page_def)
  from assms rec obtain resp where resp: "response = JDict resp"
    by (cases response) (simp_all add: read_page_def as_dict_def)
  from assms rec resp have nz: "\<not> ne_zero (get_none resp ''code'')"
    by (auto simp: read_page_def as_dict_def split: if_splits)
  from assms rec resp nz obtain data where data: "get_default resp ''data'' (JDict []) = JDict data"
    by (cases "get_default resp ''data'' (JDict [])") (simp_all add: read_page_def as_dict_def)
  from assms rec resp nz data have tok: "tok = get_none data ''next_page_token''"
    by (auto simp: read_page_def as_dict_def Let_def split: if_splits sum.splits)
  from received_Inr [OF rec] resp data have "next_page_token r = get_none data ''next_page_token''"
    by (auto simp: next_page_token_def)
  moreover have "\<not> refused r"
    using refused_received [of r] rec resp nz by auto
  ultimately show ?thesis using tok by simp
qed

lemma received_error_read_page: "received r = Inl e \<Longrightarrow> read_page (received r) = Inl e"
  by (simp add: read_page_def)

lemma page_error_first:
  assumes "\<forall>x \<in> set pre. \<exists>od. transform_order lib x = Inr od"
    and "transform_order lib x = Inl e"
  shows "page_error lib (pre @ x # post) = Some e"
  using assms by (induction pre) auto

lemma page_error_None:
  "page_error lib raws = None \<longleftrightarrow> (\<forall>x \<in> set raws. \<exists>od. transform_order lib x = Inr od)"
  by (induction raws) (auto split: sum.splits)

text \<open>What the round makes of the response to its request.\<close>

lemma handle_response_trace:
  "case handle_response lib now max_orders (received a) st1 of
     Stop out st' \<Rightarrow>
       sent st' = sent st1 \<and> (refused a \<longrightarrow> out = Left) \<and>
       (\<forall>e. page_failure lib a = Some e \<longrightarrow>
          (out = Raised e \<or>
           out = Raised IntegrityError \<and> (\<exists>p. read_page (received a) = Inr (Some p))) \<and>
          pages_done st' = pages_done st1)
   | Continue st' \<Rightarrow>
       sent st' = sent st1 \<and> \<not> refused a \<and> page_ok lib a \<and> truthy (page_token st') \<and>
       page_token st' = next_page_token a \<and> pages_done st' = pages_done st1 @ [page_rows a]"
proof (cases "read_page (received a)")
  case (Inl e)
  then have "\<not> refused a" using refused_read_page [of a] by auto
  with Inl show ?thesis by (simp add: handle_response_def page_failure_def)
next
  case (Inr page)
  show ?thesis
  proof (cases page)
    case None
    with Inr show ?thesis by (simp add: handle_response_def page_failure_def)
  next
    case (Some p)
    obtain raws tok where p: "p = (raws, tok)" by (cases p)
    from Inr Some p have rp: "read_page (received a) = Inr (Some (raws, tok))" by simp
    from read_page_token [OF rp] have tok: "tok = next_page_token a" and nr: "\<not> refused a"
      by simp_all
    have pf: "page_failure lib a = page_error lib raws" by (simp add: page_failure_def rp)
    have pr: "page_rows a = raws" by (simp add: page_rows_def rp)
    obtain r2 st2 where s: "save_orders lib now raws st1 = (r2, st2)"
      by (cases "save_orders lib now raws st1")
    note f = save_orders_frame [OF s]
    from save_orders_error [of lib now raws st1] s
    have err: "r2 = page_error lib raws \<or> r2 = Some IntegrityError" by simp
    show ?thesis
    proof (cases r2)
      case (Some e')
      with rp s have h: "handle_response lib now max_orders (received a) st1 =
          Stop (Raised e') st2"
        by (simp add: handle_response_def)
      from err Some pf have "\<forall>e. page_failure lib a = Some e \<longrightarrow>
          (e' = e \<or> e' = IntegrityError)" by auto
      with h f nr rp show ?thesis by auto
    next
      case None
      with err have ok: "page_error lib raws = None" by simp
      then have pok: "page_ok lib a" by (simp add: page_ok_def rp)
      let ?st3 = "st2\<lparr>db := commit (db st2), pages_done := pages_done st2 @ [raws],
                     page_token := tok\<rparr>"
      have h: "handle_response lib now max_orders (received a) st1 =
          (if violation st2 then Stop (Raised IntegrityError) st2
           else if \<not> truthy tok then Stop Left ?st3
           else if limit_reached max_orders (synced_count st2) then Stop Left ?st3
           else Continue ?st3)"
        using rp s None by (simp add: handle_response_def Let_def)
      from f nr pok ok pf pr tok show ?thesis
        unfolding h by simp
    qed
  qed
qed

text \<open>The request of one round and what the round makes of the response.\<close>

lemma orders_round_trace:
  "case orders_round lib client up now start_time end_time max_orders st of
     Stop out st' \<Rightarrow>
       (sent st' = sent st \<and> out = Raised AttributeError) \<or>
       (\<exists>req. sent st' = sent st @ [req] \<and>
          dict_get (req_params req) ''page_token'' = token_param (page_token st) \<and>
          fst ` set (req_params req) \<subseteq> orders_param_keys \<and>
          req_json req = Some (JDict []) \<and>
          (refused (up (length (sent st)) req) \<longrightarrow> out = Left) \<and>
          (\<forall>e. page_failure lib (up (length (sent st)) req) = Some e \<longrightarrow>
             (out = Raised e \<or>
              out = Raised IntegrityError \<and>
                (\<exists>p. read_page (received (up (length (sent st)) req)) = Inr (Some p))) \<and>
             pages_done st' = pages_done st))
   | Continue st' \<Rightarrow>
       (\<exists>req. sent st' = sent st @ [req] \<and>
          dict_get (req_params req) ''page_token'' = token_param (page_token st) \<and>
          fst ` set (req_params req) \<subseteq> orders_param_keys \<and>
          req_json req = Some (JDict []) \<and>
          \<not> refused (up (length (sent st)) req) \<and>
          page_ok lib (up (length (sent st)) req) \<and>
          truthy (page_token st') \<and>
          page_token st' = next_page_token (up (length (sent st)) req) \<and>
          pages_done st' = pages_done st @ [page_rows (up (length (sent st)) req)])"
proof -
  obtain r reqs where g: "get_orders lib client (up (length (sent st))) now (time_arg start_time)
             (time_arg end_time) 100 (page_token st) None ''create_time'' ''DESC'' = (r, reqs)"
    by (cases "get_orders lib client (up (length (sent st))) now (time_arg start_time)
             (time_arg end_time) 100 (page_token st) None ''create_time'' ''DESC''")
  from get_orders_cases [OF g] show ?thesis
  proof
    assume "reqs = [] \<and> r = Inl AttributeError"
    with g show ?thesis by (simp add: orders_round_def handle_response_def read_page_def)
  next
    assume "\<exists>req. reqs = [req] \<and> r = received (up (length (sent st)) req) \<and>
            dict_get (req_params req) ''page_token'' = token_param (page_token st) \<and>
            fst ` set (req_params req) \<subseteq> orders_param_keys \<and>
            req_json req = Some (JDict [])"
    then obtain req where req: "reqs = [req]" "r = received (up (length (sent st)) req)"
      and P: "dict_get (req_params req) ''page_token'' = token_param (page_token st)"
        "fst ` set (req_params req) \<subseteq> orders_param_keys"
        "req_json req = Some (JDict [])"
      by blast
    let ?a = "up (length (sent st)) req"
    let ?st1 = "st\<lparr>sent := sent st @ [req]\<rparr>"
    have e: "orders_round lib client up now start_time end_time max_orders st =
        handle_response lib now max_orders (received ?a) ?st1"
      by (simp add: orders_round_def g req)
    note h = handle_response_trace [where lib = lib and now = now and max_orders = max_orders
        and a = ?a and ?st1.0 = ?st1]
    show ?thesis
    proof (cases "handle_response lib now max_orders (received ?a) ?st1")
      case (Stop out st')
      with h have "sent st' = sent st @ [req]" "refused ?a \<longrightarrow> out = Left"
        "\<forall>e. page_failure lib ?a = Some e \<longrightarrow>
          (out = Raised e \<or>
           out = Raised IntegrityError \<and> (\<exists>p. read_page (received ?a) = Inr (Some p))) \<and>
          pages_done st' = pages_done st"
        by simp_all
      with P have "\<exists>req. sent st' = sent st @ [req] \<and>
          dict_get (req_params req) ''page_token'' = token_param (page_token st) \<and>
          fst ` set (req_params req) \<subseteq> orders_param_keys \<and>
          req_json req = Some (JDict []) \<and>
          (refused (up (length (sent st)) req) \<longrightarrow> out = Left) \<and>
          (\<forall>e. page_failure lib (up (length (sent st)) req) = Some e \<longrightarrow>
             (out = Raised e \<or>
              out = Raised IntegrityError \<and>
                (\<exists>p. read_page (received (up (length (sent st)) req)) = Inr (Some p))) \<and>
             pages_done st' = pages_done st)"
        by blast
      then show ?thesis unfolding e Stop by simp
    next
      case (Continue st')
      with h have "sent st' = sent st @ [req]" "\<not> refused ?a" "page_ok lib ?a"
        "truthy (page_token st')" "page_token st' = next_page_token ?a"
        "pages_done st' = pages_done st @ [page_rows ?a]"
        by auto
      with P have "\<exists>req. sent st' = sent st @ [req] \<and>
          dict_get (req_params req) ''page_token'' = token_param (page_token st) \<and>
          fst ` set (req_params req) \<subseteq> orders_param_keys \<and>
          req_json req = Some (JDict []) \<and>
          \<not> refused (up (length (sent st)) req) \<and>
          page_ok lib (up (length (sent st)) req) \<and>
          truthy (page_token st') \<and>
          page_token st' = next_page_token (up (length (sent st)) req) \<and>
          pages_done st' = pages_done st @ [page_rows (up (length (sent st)) req)]"
        by blast
      then show ?thesis unfolding e Continue by simp
    qed
  qed
qed

lemma page_ok_no_failure: "page_ok lib a \<Longrightarrow> page_failure lib a = None"
  by (auto simp: page_ok_def page_failure_def split: sum.splits option.splits)

text \<open>The requests of the loop, in their order, and what the last response leads to.\<close>

lemma orders_loop_trace:
  assumes "orders_loop n lib client up now start_time end_time max_orders st = (out, st')"
  shows "\<exists>more. sent st' = sent st @ more \<and>
           chained lib up (length (sent st)) (token_param (page_token st)) more \<and>
           (more \<noteq> [] \<longrightarrow>
              (refused (up (length (sent st') - 1) (last more)) \<longrightarrow> out = Left) \<and>
              (\<forall>e. page_failure lib (up (length (sent st') - 1) (last more)) = Some e \<longrightarrow>
                 (out = Raised e \<or>
                  out = Raised IntegrityError \<and>
                    (\<exists>p. read_page (received (up (length (sent st') - 1) (last more))) =
                           Inr (Some p))) \<and>
                 pages_done st' =
                   pages_done st @ fetched up (length (sent st)) (butlast more)))"
  using assms
proof (induction n arbitrary: st)
  case 0
  then show ?case by simp
next
  case (Suc n)
  note tr = orders_round_trace [where lib = lib and client = client and up = up and now = now
    and start_time = start_time and end_time = end_time and max_orders = max_orders and st = st]
  show ?case
  proof (cases "orders_round lib client up now start_time end_time max_orders st")
    case (Stop out1 st1)
    with Suc.prems have eq: "out1 = out" "st1 = st'" by simp_all
    from tr Stop eq consider "sent st' = sent st" |
      req where "sent st' = sent st @ [req]"
        "dict_get (req_params req) ''page_token'' = token_param (page_token st)"
        "fst ` set (req_params req) \<subseteq> orders_param_keys"
        "req_json req = Some (JDict [])"
        "refused (up (length (sent st)) req) \<longrightarrow> out = Left"
        "\<forall>e. page_failure lib (up (length (sent st)) req) = Some e \<longrightarrow>
             (out = Raised e \<or>
              out = Raised IntegrityError \<and>
                (\<exists>p. read_page (received (up (length (sent st)) req)) = Inr (Some p))) \<and>
             pages_done st' = pages_done st"
      by auto
    then show ?thesis
    proof cases
      case 1
      then show ?thesis by simp
    next
      case 2
      have "sent st' = sent st @ [req] \<and>
           chained lib up (length (sent st)) (token_param (page_token st)) [req] \<and>
           ([req] \<noteq> [] \<longrightarrow>
              (refused (up (length (sent st') - 1) (last [req])) \<longrightarrow> out = Left) \<and>
              (\<forall>e. page_failure lib (up (length (sent st') - 1) (last [req])) = Some e \<longrightarrow>
                 (out = Raised e \<or>
                  out = Raised IntegrityError \<and>
                    (\<exists>p. read_page (received (up (length (sent st') - 1) (last [req]))) =
                           Inr (Some p))) \<and>
                 pages_done st' =
                   pages_done st @ fetched up (length (sent st)) (butlast [req])))"
        using 2 by simp
      then show ?thesis by blast
    qed
  next
    case (Continue st1)
    with tr obtain req where r: "sent st1 = sent st @ [req]"
        "dict_get (req_params req) ''page_token'' = token_param (page_token st)"
        "fst ` set (req_params req) \<subseteq> orders_param_keys"
        "req_json req = Some (JDict [])"
        "\<not> refused (up (length (sent st)) req)"
        "page_ok lib (up (length (sent st)) req)"
        "truthy (page_token st1)"
        "page_token st1 = next_page_token (up (length (sent st)) req)"
        "pages_done st1 = pages_done st @ [page_rows (up (length (sent st)) req)]"
      by auto
    from Suc.prems Continue
    have "orders_loop n lib client up now start_time end_time max_orders st1 = (out, st')"
      by simp
    from Suc.IH [OF this] obtain more where m: "sent st' = sent st1 @ more"
      "chained lib up (length (sent st1)) (token_param (page_token st1)) more"
      "more \<noteq> [] \<longrightarrow>
              (refused (up (length (sent st') - 1) (last more)) \<longrightarrow> out = Left) \<and>
              (\<forall>e. page_failure lib (up (length (sent st') - 1) (last more)) = Some e \<longrightarrow>
                 (out = Raised e \<or>
                  out = Raised IntegrityError \<and>
                    (\<exists>p. read_page (received (up (length (sent st') - 1) (last more))) =
                           Inr (Some p))) \<and>
                 pages_done st' =
                   pages_done st1 @ fetched up (length (sent st1)) (butlast more))"
      by blast
    have a: "sent st' = sent st @ (req # more)" using m(1) r(1) by simp
    have b: "chained lib up (length (sent st)) (token_param (page_token st)) (req # more)"
      using m(2) r by (simp add: token_param_def)
    have c: "(refused (up (length (sent st') - 1) (last (req # more))) \<longrightarrow> out = Left) \<and>
              (\<forall>e. page_failure lib (up (length (sent st') - 1) (last (req # more))) = Some e \<longrightarrow>
                 (out = Raised e \<or>
                  out = Raised IntegrityError \<and>
                    (\<exists>p. read_page (received (up (length (sent st') - 1) (last (req # more)))) =
                           Inr (Some p))) \<and>
                 pages_done st' =
                   pages_done st @ fetched up (length (sent st)) (butlast (req # more)))"
    proof (cases "more = []")
      case True
      with a have "up (length (sent st') - 1) (last (req # more)) = up (length (sent st)) req"
        by simp
      with r(5) page_ok_no_failure [OF r(6)] show ?thesis by simp
    next
      case False
      with m(3) r(1,9) show ?thesis by simp
    qed
    from a b c show ?thesis by blast
  qed
qed

lemma chained_nth:
  assumes "chained lib up i p q"
  shows "(q \<noteq> [] \<longrightarrow> dict_get (req_params (hd q)) ''page_token'' = p) \<and>
         (\<forall>k. Suc k < length q \<longrightarrow>
            dict_get (req_params (q ! Suc k)) ''page_token'' =
              Some (next_page_token (up (i + k) (q ! k))) \<and>
            truthy (next_page_token (up (i + k) (q ! k))) \<and>
            \<not> refused (up (i + k) (q ! k)) \<and>
            page_ok lib (up (i + k) (q ! k))) \<and>
         (\<forall>req \<in> set q. fst ` set (req_params req) \<subseteq> orders_param_keys \<and>
            req_json req = Some (JDict []))"
  using assms
proof (induction q arbitrary: i p)
  case Nil
  then show ?case by simp
next
  case (Cons req rest)
  show ?case
  proof (cases "rest = []")
    case True
    with Cons.prems show ?thesis by simp
  next
    case False
    with Cons.prems have h: "dict_get (req_params req) ''page_token'' = p"
      "fst ` set (req_params req) \<subseteq> orders_param_keys"
      "req_json req = Some (JDict [])"
      "\<not> refused (up i req)" "truthy (next_page_token (up i req))" "page_ok lib (up i req)"
      and c: "chained lib up (Suc i) (Some (next_page_token (up i req))) rest"
      by auto
    note ih = Cons.IH [OF c]
    have "dict_get (req_params ((req # rest) ! Suc k)) ''page_token'' =
              Some (next_page_token (up (i + k) ((req # rest) ! k))) \<and>
            truthy (next_page_token (up (i + k) ((req # rest) ! k))) \<and>
            \<not> refused (up (i + k) ((req # rest) ! k)) \<and>
            page_ok lib (up (i + k) ((req # rest) ! k))"
      if "Suc k < length (req # rest)" for k
    proof (cases k)
      case 0
      with ih h False show ?thesis by (simp add: hd_conv_nth)
    next
      case (Suc j)
      with that have "Suc j < length rest" by simp
      with ih Suc show ?thesis by simp
    qed
    with h ih show ?thesis by simp
  qed
qed

lemma fetched_nth:
  "length (fetched up i q) = length q \<and>
   (\<forall>k < length q. fetched up i q ! k = page_rows (up (i + k) (q ! k)))"
proof (induction q arbitrary: i)
  case Nil
  then show ?case by simp
next
  case (Cons req rest)
  have "fetched up i (req # rest) ! k = page_rows (up (i + k) ((req # rest) ! k))"
    if "k < length (req # rest)" for k
  proof (cases k)
    case 0
    then show ?thesis by simp
  next
    case (Suc j)
    with that Cons.IH [of "Suc i"] show ?thesis by simp
  qed
  with Cons.IH [of "Suc i"] show ?case by simp
qed

lemma update_sync_metadata_row:
  "\<exists>m. sync_metadata (committed (update_sync_metadata lib now full n most_recent s)) ''orders''
          = Some m \<and>
       last_sync_time m = Some now \<and> records_synced m = n \<and>
       is_full_sync m = (if full then 1 else 0) \<and> updated_at m = Some now \<and>
       last_record_time m = Some (record_time lib most_recent now)"
  by (cases "sync_metadata (pending s) ''orders''")
    (simp_all add: update_sync_metadata_def commit_def Let_def)

lemma orders_pass_loop_trace:
  assumes "orders_pass_loop fuel lib cfg up now s token max_orders force_full_sync = (out, st)"
  shows "chained lib up 0 None (sent st) \<and>
         (sent st \<noteq> [] \<longrightarrow>
            (refused (up (length (sent st) - 1) (last (sent st))) \<longrightarrow> out = Left) \<and>
            (\<forall>e. page_failure lib (up (length (sent st) - 1) (last (sent st))) = Some e \<longrightarrow>
               (out = Raised e \<or>
                out = Raised IntegrityError \<and>
                  (\<exists>p. read_page (received (up (length (sent st) - 1) (last (sent st)))) =
                         Inr (Some p))) \<and>
               pages_done st = fetched up 0 (butlast (sent st))))"
proof -
  obtain start_time end_time full
    where "choose_window now force_full_sync s = (start_time, end_time, full)"
    by (cases "choose_window now force_full_sync s")
  with assms have "orders_loop fuel lib (init_client cfg (Some token)) up now start_time end_time
            max_orders (pass_init s) = (out, st)"
    by (simp add: orders_pass_loop_def)
  from orders_loop_trace [OF this] show ?thesis
    by (simp add: pass_init_def token_param_def)
qed

text \<open>What the loop of a pass leaves stored.\<close>

lemma orders_pass_loop_effect:
  assumes "pending s = committed s"
    and "orders_pass_loop fuel lib cfg up now s token max_orders force_full_sync = (out, st)"
  shows "orders (committed (db st)) =
           fold (store_raw lib now) (concat (pages_done st)) (orders (committed s)) \<and>
         sync_metadata (committed (db st)) = sync_metadata (committed s) \<and>
         most_recent_order_time st = None \<and>
         (out = Left \<longrightarrow> pending (db st) = committed (db st) \<and> \<not> violation st)"
proof -
  obtain start_time end_time full
    where "choose_window now force_full_sync s = (start_time, end_time, full)"
    by (cases "choose_window now force_full_sync s")
  with assms(2) have run: "orders_loop fuel lib (init_client cfg (Some token)) up now start_time
            end_time max_orders (pass_init s) = (out, st)"
    by (simp add: orders_pass_loop_def)
  have c: "pending (db (pass_init s)) = committed (db (pass_init s))"
    using assms(1) by (simp add: pass_init_def)
  from orders_loop_effect [OF c run] orders_loop_most_recent [OF run] show ?thesis
    by (simp add: round_effect_def pass_init_def)
qed

text \<open>A loop that is left by \<open>break\<close> has had every row accepted by the database.\<close>

lemma handle_response_violation:
  "case handle_response lib now max_orders r st1 of
     Stop out st' \<Rightarrow> out = Left \<longrightarrow> \<not> violation st1 \<longrightarrow> \<not> violation st'
   | Continue st' \<Rightarrow> \<not> violation st'"
proof (cases "read_page r")
  case (Inl e)
  then show ?thesis by (simp add: handle_response_def)
next
  case (Inr page)
  show ?thesis
  proof (cases page)
    case None
    with Inr show ?thesis by (simp add: handle_response_def)
  next
    case (Some p)
    obtain raws tok where p: "p = (raws, tok)" by (cases p)
    obtain r2 st2 where s: "save_orders lib now raws st1 = (r2, st2)"
      by (cases "save_orders lib now raws st1")
    from Inr Some p s show ?thesis
      by (cases r2) (simp_all add: handle_response_def Let_def)
  qed
qed

lemma orders_loop_violation:
  assumes "\<not> violation st"
    and "orders_loop n lib client up now start_time end_time max_orders st = (Left, st')"
  shows "\<not> violation st'"
  using assms
proof (induction n arbitrary: st)
  case 0
  then show ?case by simp
next
  case (Suc n)
  obtain r reqs where g: "get_orders lib client (up (length (sent st))) now (time_arg start_time)
             (time_arg end_time) 100 (page_token st) None ''create_time'' ''DESC'' = (r, reqs)"
    by (cases "get_orders lib client (up (length (sent st))) now (time_arg start_time)
             (time_arg end_time) 100 (page_token st) None ''create_time'' ''DESC''")
  have e: "orders_round lib client up now start_time end_time max_orders st =
      handle_response lib now max_orders r (st\<lparr>sent := sent st @ reqs\<rparr>)"
    by (simp add: orders_round_def g)
  note h = handle_response_violation [where lib = lib and now = now
      and max_orders = max_orders and r = r and ?st1.0 = "st\<lparr>sent := sent st @ reqs\<rparr>"]
  show ?case
  proof (cases "orders_round lib client up now start_time end_time max_orders st")
    case (Stop out1 st1)
    with Suc.prems(2) have "out1 = Left" "st1 = st'" by simp_all
    with Stop have "handle_response lib now max_orders r (st\<lparr>sent := sent st @ reqs\<rparr>) =
        Stop Left st'"
      unfolding e by simp
    with h Suc.prems(1) show ?thesis by simp
  next
    case (Continue st1)
    then have "handle_response lib now max_orders r (st\<lparr>sent := sent st @ reqs\<rparr>) =
        Continue st1"
      unfolding e .
    with h have v: "\<not> violation st1" by simp
    from Suc.prems(2) Continue
    have "orders_loop n lib client up now start_time end_time max_orders st1 = (Left, st')"
      by simp
    from Suc.IH [OF v this] show ?thesis .
  qed
qed

lemma orders_pass_loop_left:
  assumes "orders_pass_loop fuel lib cfg up now s token max_orders force_full_sync = (Left, st)"
  shows "sync_orders_task fuel lib cfg up now s token days_back max_orders force_full_sync =
    Some (Inr (synced_count st),
          update_sync_metadata lib now (snd (snd (choose_window now force_full_sync s)))
            (synced_count st) (most_recent_order_time st) (db st),
          sent st, pages_done st)"
proof -
  obtain start_time end_time full
    where "choose_window now force_full_sync s = (start_time, end_time, full)"
    by (cases "choose_window now force_full_sync s")
  with assms have "orders_loop fuel lib (init_client cfg (Some token)) up now start_time end_time
            max_orders (pass_init s) = (Left, st)"
    by (simp add: orders_pass_loop_def)
  from orders_loop_violation [OF _ this] have "\<not> violation st"
    by (simp add: pass_init_def)
  with assms show ?thesis
    by (simp add: sync_orders_task_def finish_pass_def)
qed

text \<open>The ids of the stored orders.\<close>

lemma keys_upsert_row: "fst ` set (upsert_row now oid od tbl) = insert oid (fst ` set tbl)"
  by (simp add: upsert_row_def keys_dict_set)

lemma keys_store_raw:
  "fst ` set (store_raw lib now raw_order tbl) = fst ` set tbl \<union> stored_ids lib [raw_order]"
  by (auto simp: store_raw_def stored_ids_def keys_upsert_row split: sum.splits option.splits)

lemma stored_ids_Cons:
  "stored_ids lib (raw_order # raws) = stored_ids lib [raw_order] \<union> stored_ids lib raws"
  by (auto simp: stored_ids_def)

lemma keys_fold_store_raw:
  "fst ` set (fold (store_raw lib now) raws tbl) = fst ` set tbl \<union> stored_ids lib raws"
proof (induction raws arbitrary: tbl)
  case Nil
  then show ?case by (simp add: stored_ids_def)
next
  case (Cons raw_order raws)
  have "fst ` set (fold (store_raw lib now) (raw_order # raws) tbl) =
        fst ` set (store_raw lib now raw_order tbl) \<union> stored_ids lib raws"
    by (simp add: Cons.IH)
  also have "\<dots> = fst ` set tbl \<union> stored_ids lib (raw_order # raws)"
    using stored_ids_Cons [of lib raw_order raws] by (auto simp: keys_store_raw)
  finally show ?case .
qed

text \<open>
  A request of a pass whose fetch fails, or whose page has a row that cannot be
  transformed, is the last request of the pass, the loop ends with an exception, and the
  committed pages are the pages answered to the requests before it.
\<close>

lemma failure_ends_loop:
  assumes run: "orders_pass_loop fuel lib cfg up now s token max_orders force_full_sync =
      (out, st)"
    and i: "i < length (sent st)"
    and f: "page_failure lib (up i (sent st ! i)) = Some e"
  shows "Suc i = length (sent st) \<and>
         (out = Raised e \<or>
          out = Raised IntegrityError \<and>
            (\<exists>p. read_page (received (up i (sent st ! i))) = Inr (Some p))) \<and>
         length (pages_done st) = i \<and>
         (\<forall>j < i. pages_done st ! j = page_rows (up j (sent st ! j)))"
proof -
  note tr = orders_pass_loop_trace [OF run]
  have last: "Suc i = length (sent st)"
  proof (rule ccontr)
    assume "Suc i \<noteq> length (sent st)"
    with i have "Suc i < length (sent st)" by simp
    with chained_nth [OF conjunct1 [OF tr]] have "page_ok lib (up (0 + i) (sent st ! i))"
      by blast
    with f page_ok_no_failure [of lib "up i (sent st ! i)"] show False by simp
  qed
  then have ne: "sent st \<noteq> []" and idx: "length (sent st) - 1 = i"
    by auto
  from ne idx have l: "last (sent st) = sent st ! i"
    by (simp add: last_conv_nth)
  from tr ne idx l f
  have out: "out = Raised e \<or>
          out = Raised IntegrityError \<and>
            (\<exists>p. read_page (received (up i (sent st ! i))) = Inr (Some p))"
    and pages: "pages_done st = fetched up 0 (butlast (sent st))"
    by simp_all
  have len: "length (butlast (sent st)) = i" using idx by simp
  note fn = fetched_nth [of up 0 "butlast (sent st)"]
  have "pages_done st ! j = page_rows (up j (sent st ! j))" if "j < i" for j
    using that fn len pages by (simp add: nth_butlast)
  moreover have "length (pages_done st) = i" using fn len pages by simp
  ultimately show ?thesis using last out by blast
qed

lemma failed_loop_rolled_back:
  assumes clean: "pending s = committed s"
    and run: "orders_pass_loop fuel lib cfg up now s token max_orders force_full_sync =
      (Raised e, st)"
  shows "sync_orders_task fuel lib cfg up now s token days_back max_orders force_full_sync =
           Some (Inl e, rollback (db st), sent st, pages_done st) \<and>
         sync_metadata (committed (rollback (db st))) = sync_metadata (committed s) \<and>
         pending (rollback (db st)) = committed (rollback (db st)) \<and>
         orders (committed (rollback (db st))) =
           fold (store_raw lib now) (concat (pages_done st)) (orders (committed s)) \<and>
         fst ` set (orders (committed (rollback (db st)))) =
           fst ` set (orders (committed s)) \<union> stored_ids lib (concat (pages_done st))"
proof -
  note eff = orders_pass_loop_effect [OF clean run]
  have a: "sync_orders_task fuel lib cfg up now s token days_back max_orders force_full_sync =
           Some (Inl e, rollback (db st), sent st, pages_done st)"
    using run by (simp add: sync_orders_task_def finish_pass_def)
  have b: "committed (rollback (db st)) = committed (db st)"
    "pending (rollback (db st)) = committed (db st)"
    by (simp_all add: rollback_def)
  from eff have c: "orders (committed (db st)) =
           fold (store_raw lib now) (concat (pages_done st)) (orders (committed s))"
    and d: "sync_metadata (committed (db st)) = sync_metadata (committed s)"
    by simp_all
  have "fst ` set (orders (committed (db st))) =
           fst ` set (orders (committed s)) \<union> stored_ids lib (concat (pages_done st))"
    unfolding c by (rule keys_fold_store_raw)
  with a c d show ?thesis unfolding b by simp
qed

text \<open>
  C1. Take a pass over orders that starts on a session without pending changes, and a
  request of it, the one after \<open>i\<close> others, for which the fetch raises \<open>e\<close> (the transport
  fails, the HTTP status is an error, the body is no JSON document), or to which the
  response is a page with a row whose transformation raises \<open>e\<close>, the rows before it being
  transformable. Then this is the last request of the pass and the pass ends with an
  exception raised again by its handler: \<open>e\<close> itself, or, when it is a row that fails and
  the database has refused an earlier row of the same page, \<open>IntegrityError\<close>. The pages
  committed are exactly the pages answered to the \<open>i\<close> requests before. The stored
  watermark rows are what they were before the pass, the session has no pending change
  left, the stored orders are the orders from before the pass with the rows of the
  committed pages stored over them, and their ids are the ids from before the pass and the
  ids of those rows.
\<close>

theorem failed_fetch_or_transform_keeps_watermark:
  assumes "pending s = committed s"
    and "orders_pass_loop fuel lib cfg up now s token max_orders force_full_sync = (out, st)"
    and "i < length (sent st)"
    and "received (up i (sent st ! i)) = Inl e \<or>
         (\<exists>pre x post tok.
            read_page (received (up i (sent st ! i))) = Inr (Some (pre @ x # post, tok)) \<and>
            (\<forall>y \<in> set pre. \<exists>od. transform_order lib y = Inr od) \<and>
            transform_order lib x = Inl e)"
  shows "\<exists>e'. (e' = e \<or> e' = IntegrityError \<and> (\<forall>e. received (up i (sent st ! i)) \<noteq> Inl e)) \<and>
           out = Raised e' \<and>
           sync_orders_task fuel lib cfg up now s token days_back max_orders force_full_sync =
             Some (Inl e', rollback (db st), sent st, pages_done st) \<and>
           Suc i = length (sent st) \<and>
           length (pages_done st) = i \<and>
           (\<forall>j < i. pages_done st ! j = page_rows (up j (sent st ! j))) \<and>
           sync_metadata (committed (rollback (db st))) = sync_metadata (committed s) \<and>
           pending (rollback (db st)) = committed (rollback (db st)) \<and>
           orders (committed (rollback (db st))) =
             fold (store_raw lib now) (concat (pages_done st)) (orders (committed s)) \<and>
           fst ` set (orders (committed (rollback (db st)))) =
             fst ` set (orders (committed s)) \<union> stored_ids lib (concat (pages_done st))"
proof -
  let ?a = "up i (sent st ! i)"
  have f: "page_failure lib ?a = Some e"
    using assms(4)
  proof
    assume "received ?a = Inl e"
    then show ?thesis by (simp add: page_failure_def read_page_def)
  next
    assume "\<exists>pre x post tok.
            read_page (received ?a) = Inr (Some (pre @ x # post, tok)) \<and>
            (\<forall>y \<in> set pre. \<exists>od. transform_order lib y = Inr od) \<and>
            transform_order lib x = Inl e"
    then obtain pre x post tok
      where rp: "read_page (received ?a) = Inr (Some (pre @ x # post, tok))"
        and pre: "\<forall>y \<in> set pre. \<exists>od. transform_order lib y = Inr od"
        and x: "transform_order lib x = Inl e"
      by blast
    from page_error_first [OF pre x] rp show ?thesis by (simp add: page_failure_def)
  qed
  note l = failure_ends_loop [OF assms(2,3) f]
  have rec: "\<forall>e. received ?a \<noteq> Inl e" if "read_page (received ?a) = Inr (Some p)" for p
    using that by (auto simp: read_page_def)
  from l rec obtain e' where e': "out = Raised e'"
    "e' = e \<or> e' = IntegrityError \<and> (\<forall>e. received ?a \<noteq> Inl e)"
    by blast
  note r = failed_loop_rolled_back [OF assms(1) assms(2) [unfolded e'(1)], of days_back]
  from l e' r show ?thesis by blast
qed

theorem failed_fetch_or_transform_keeps_watermark_witness:
  "pending marked_session = committed marked_session \<and>
   (\<exists>out st. orders_pass_loop 3 demo_lib demo_settings failing_upstream 1000 marked_session
            ''tok'' None True = (out, st) \<and>
      1 < length (sent st) \<and>
      received (failing_upstream 1 (sent st ! 1)) = Inl TransportError \<and>
      out = Raised TransportError \<and>
      sync_orders_task 3 demo_lib demo_settings failing_upstream 1000 marked_session
            ''tok'' 30 None True =
        Some (Inl TransportError, rollback (db st), sent st, pages_done st) \<and>
      Suc 1 = length (sent st) \<and>
      pages_done st = [[demo_order ''a'', demo_order ''b'']] \<and>
      sync_metadata (committed (rollback (db st))) ''orders'' = Some demo_watermark \<and>
      pending (rollback (db st)) = committed (rollback (db st)) \<and>
      map fst (orders (committed (rollback (db st)))) =
        [CJson (JStr ''a''), CJson (JStr ''b'')]) \<and>
   (\<exists>out st. orders_pass_loop 3 demo_lib demo_settings bad_row_upstream 1000 marked_session
            ''tok'' None True = (out, st) \<and>
      1 < length (sent st) \<and>
      read_page (received (bad_row_upstream 1 (sent st ! 1))) =
        Inr (Some ([demo_order ''c''] @ JInt 5 # [], JNull)) \<and>
      transform_order demo_lib (JInt 5) = Inl AttributeError \<and>
      out = Raised AttributeError \<and>
      sync_orders_task 3 demo_lib demo_settings bad_row_upstream 1000 marked_session
            ''tok'' 30 None True =
        Some (Inl AttributeError, rollback (db st), sent st, pages_done st) \<and>
      Suc 1 = length (sent st) \<and>
      pages_done st = [[demo_order ''a'', demo_order ''b'']] \<and>
      sync_metadata (committed (rollback (db st))) ''orders'' = Some demo_watermark \<and>
      pending (rollback (db st)) = committed (rollback (db st)) \<and>
      map fst (orders (committed (rollback (db st)))) =
        [CJson (JStr ''a''), CJson (JStr ''b'')])"
proof -
  have clean: "pending marked_session = committed marked_session"
    by (simp add: marked_session_def)
  have mark: "sync_metadata (committed marked_session) ''orders'' = Some demo_watermark"
    and none: "orders (committed marked_session) = []"
    by (simp_all add: marked_session_def marked_store_def empty_store_def)
  have ids: "map fst (fold (store_raw demo_lib 1000) [demo_order ''a'', demo_order ''b''] []) =
      [CJson (JStr ''a''), CJson (JStr ''b'')]"
    by code_simp
  let ?p = "orders_pass_loop 3 demo_lib demo_settings failing_upstream 1000 marked_session
            ''tok'' None True"
  have run: "?p = (fst ?p, snd ?p)" by simp
  have len: "1 < length (sent (snd ?p))" by code_simp
  have cause: "received (failing_upstream 1 (sent (snd ?p) ! 1)) = Inl TransportError"
    by code_simp
  have pages: "pages_done (snd ?p) = [[demo_order ''a'', demo_order ''b'']]" by code_simp
  from failed_fetch_or_transform_keeps_watermark [OF clean run len disjI1 [OF cause], of 30]
  obtain e' where a: "e' = TransportError \<or> e' = IntegrityError \<and>
        (\<forall>e. received (failing_upstream 1 (sent (snd ?p) ! 1)) \<noteq> Inl e)"
    and b: "fst ?p = Raised e'"
      "sync_orders_task 3 demo_lib demo_settings failing_upstream 1000 marked_session
            ''tok'' 30 None True =
        Some (Inl e', rollback (db (snd ?p)), sent (snd ?p), pages_done (snd ?p))"
      "Suc 1 = length (sent (snd ?p))"
      "sync_metadata (committed (rollback (db (snd ?p)))) = sync_metadata (committed marked_session)"
      "pending (rollback (db (snd ?p))) = committed (rollback (db (snd ?p)))"
      "orders (committed (rollback (db (snd ?p)))) =
         fold (store_raw demo_lib 1000) (concat (pages_done (snd ?p)))
           (orders (committed marked_session))"
    by blast
  from a cause have e': "e' = TransportError" by simp
  have first: "\<exists>out st. ?p = (out, st) \<and>
      1 < length (sent st) \<and>
      received (failing_upstream 1 (sent st ! 1)) = Inl TransportError \<and>
      out = Raised TransportError \<and>
      sync_orders_task 3 demo_lib demo_settings failing_upstream 1000 marked_session
            ''tok'' 30 None True =
        Some (Inl TransportError, rollback (db st), sent st, pages_done st) \<and>
      Suc 1 = length (sent st) \<and>
      pages_done st = [[demo_order ''a'', demo_order ''b'']] \<and>
      sync_metadata (committed (rollback (db st))) ''orders'' = Some demo_watermark \<and>
      pending (rollback (db st)) = committed (rollback (db st)) \<and>
      map fst (orders (committed (rollback (db st)))) =
        [CJson (JStr ''a''), CJson (JStr ''b'')]"
    apply (rule exI [of _ "fst ?p"])
    apply (rule exI [of _ "snd ?p"])
    using run len cause pages b mark none ids unfolding e' by simp
  let ?q = "orders_pass_loop 3 demo_lib demo_settings bad_row_upstream 1000 marked_session
            ''tok'' None True"
  have run2: "?q = (fst ?q, snd ?q)" by simp
  have len2: "1 < length (sent (snd ?q))" by code_simp
  have page: "read_page (received (bad_row_upstream 1 (sent (snd ?q) ! 1))) =
        Inr (Some ([demo_order ''c''] @ JInt 5 # [], JNull))"
    by code_simp
  have bad: "transform_order demo_lib (JInt 5) = Inl AttributeError" by code_simp
  have "\<not> isl (transform_order demo_lib (demo_order ''c''))" by code_simp
  then have good: "\<forall>y \<in> set [demo_order ''c'']. \<exists>od. transform_order demo_lib y = Inr od"
    by (cases "transform_order demo_lib (demo_order ''c'')") simp_all
  have out2: "fst ?q = Raised AttributeError" by code_simp
  have pages2: "pages_done (snd ?q) = [[demo_order ''a'', demo_order ''b'']]" by code_simp
  have cause2: "received (bad_row_upstream 1 (sent (snd ?q) ! 1)) = Inl AttributeError \<or>
         (\<exists>pre x post tok.
            read_page (received (bad_row_upstream 1 (sent (snd ?q) ! 1))) =
              Inr (Some (pre @ x # post, tok)) \<and>
            (\<forall>y \<in> set pre. \<exists>od. transform_order demo_lib y = Inr od) \<and>
            transform_order demo_lib x = Inl AttributeError)"
    using page good bad by blast
  from failed_fetch_or_transform_keeps_watermark [OF clean run2 len2 cause2, of 30]
  obtain e2 where b2: "fst ?q = Raised e2"
      "sync_orders_task 3 demo_lib demo_settings bad_row_upstream 1000 marked_session
            ''tok'' 30 None True =
        Some (Inl e2, rollback (db (snd ?q)), sent (snd ?q), pages_done (snd ?q))"
      "Suc 1 = length (sent (snd ?q))"
      "sync_metadata (committed (rollback (db (snd ?q)))) = sync_metadata (committed marked_session)"
      "pending (rollback (db (snd ?q))) = committed (rollback (db (snd ?q)))"
      "orders (committed (rollback (db (snd ?q)))) =
         fold (store_raw demo_lib 1000) (concat (pages_done (snd ?q)))
           (orders (committed marked_session))"
    by blast
  from b2(1) out2 have e2: "e2 = AttributeError" by simp
  have second: "\<exists>out st. ?q = (out, st) \<and>
      1 < length (sent st) \<and>
      read_page (received (bad_row_upstream 1 (sent st ! 1))) =
        Inr (Some ([demo_order ''c''] @ JInt 5 # [], JNull)) \<and>
      transform_order demo_lib (JInt 5) = Inl AttributeError \<and>
      out = Raised AttributeError \<and>
      sync_orders_task 3 demo_lib demo_settings bad_row_upstream 1000 marked_session
            ''tok'' 30 None True =
        Some (Inl AttributeError, rollback (db st), sent st, pages_done st) \<and>
      Suc 1 = length (sent st) \<and>
      pages_done st = [[demo_order ''a'', demo_order ''b'']] \<and>
      sync_metadata (committed (rollback (db st))) ''orders'' = Some demo_watermark \<and>
      pending (rollback (db st)) = committed (rollback (db st)) \<and>
      map fst (orders (committed (rollback (db st)))) =
        [CJson (JStr ''a''), CJson (JStr ''b'')]"
    apply (rule exI [of _ "fst ?q"])
    apply (rule exI [of _ "snd ?q"])
    using run2 len2 page bad pages2 b2 mark none ids unfolding e2 by simp
  from clean first second show ?thesis by blast
qed

text \<open>
  \<open>get_orders\<close> called with two integers that are not zero raises before it builds a
  request.
\<close>

lemma get_orders_int_times:
  assumes "a \<noteq> 0" and "b \<noteq> 0"
  shows "get_orders lib client send now (Some (IntValue a)) (Some (IntValue b)) page_size tok
           status sort_field sort_order = (Inl AttributeError, [])"
  using assms by (simp add: get_orders_def date_filter_def)

lemma incremental_pass_raises:
  assumes "sync_metadata (pending s) ''orders'' = Some m" and "last_sync_time m = Some t"
    and "t - 300 \<noteq> 0" and "now \<noteq> 0"
  shows "sync_orders_task (Suc n) lib cfg up now s token days_back max_orders False =
           Some (Inl AttributeError, rollback s, [], [])"
  using assms
  by (simp add: sync_orders_task_def orders_pass_loop_def choose_window_def orders_round_def
      handle_response_def read_page_def time_arg_def get_orders_int_times finish_pass_def
      pass_init_def)

text \<open>
  C6. With a watermark whose \<open>last_sync_time\<close> is 500 and a pass at time 1000 that is not
  forced to be full, the window is chosen as 500 - 300 to 1000, and the pass then ends with
  \<open>AttributeError\<close> and without a request: \<open>get_orders\<close> is handed the two integers and
  calls \<open>timestamp()\<close> on them. (The lemma before this one says the same for every
  watermark and time, zero apart.)
\<close>

theorem incremental_pass_fails_before_fetching:
  "sync_metadata (pending marked_session) ''orders'' = Some demo_watermark \<and>
   last_sync_time demo_watermark = Some 500 \<and>
   choose_window 1000 False marked_session = (Some 200, Some 1000, False) \<and>
   sync_orders_task 3 demo_lib demo_settings demo_upstream 1000 marked_session ''tok'' 30 None
     False = Some (Inl AttributeError, rollback marked_session, [], [])"
proof -
  have a: "sync_metadata (pending marked_session) ''orders'' = Some demo_watermark"
    by (simp add: marked_session_def marked_store_def)
  have b: "last_sync_time demo_watermark = Some 500"
    by (simp add: demo_watermark_def)
  have c: "choose_window 1000 False marked_session = (Some 200, Some 1000, False)"
    by (simp add: choose_window_def a b)
  have "sync_orders_task (Suc 2) demo_lib demo_settings demo_upstream 1000 marked_session
     ''tok'' 30 None False = Some (Inl AttributeError, rollback marked_session, [], [])"
    by (rule incremental_pass_raises [OF a b]) simp_all
  then show ?thesis using a b c by (simp add: numeral_3_eq_3)
qed

text \<open>
  C8, as amended. When a response of a pass over orders arrives with HTTP status 200 and a
  \<open>code\<close> other than zero, it is the last response of the pass: the loop is left by
  \<open>break\<close>, no error is raised, the pass returns the number of orders synced so far, and
  the watermark is written as at the end of any pass that returns, with \<open>last_sync_time\<close>
  the time of the pass and \<open>records_synced\<close> that number.
\<close>

theorem nonzero_code_ends_pass_and_writes_watermark:
  assumes "orders_pass_loop fuel lib cfg up now s token max_orders force_full_sync = (out, st)"
    and "i < length (sent st)"
    and "up i (sent st ! i) = Inr \<lparr>status_code = 200, json_body = Some (JDict resp)\<rparr>"
    and "ne_zero (get_none resp ''code'')"
  shows "Suc i = length (sent st) \<and>
         (\<exists>s'. sync_orders_task fuel lib cfg up now s token days_back max_orders force_full_sync =
                 Some (Inr (synced_count st), s', sent st, pages_done st) \<and>
               (\<exists>m. sync_metadata (committed s') ''orders'' = Some m \<and>
                    last_sync_time m = Some now \<and> records_synced m = synced_count st))"
proof -
  note tr = orders_pass_loop_trace [OF assms(1)]
  have ref: "refused (up i (sent st ! i))"
    using assms(3,4) by (simp add: refused_def)
  have last: "Suc i = length (sent st)"
  proof (rule ccontr)
    assume "Suc i \<noteq> length (sent st)"
    with assms(2) have "Suc i < length (sent st)" by simp
    with chained_nth [OF conjunct1 [OF tr]] have "\<not> refused (up (0 + i) (sent st ! i))" by blast
    with ref show False by simp
  qed
  then have ne: "sent st \<noteq> []" and idx: "length (sent st) - 1 = i"
    by auto
  from ne idx have "last (sent st) = sent st ! i"
    by (simp add: last_conv_nth)
  note this ne idx
  with tr ref have "out = Left" by simp
  note orders_pass_loop_left [OF assms(1) [unfolded this], of days_back]
  with update_sync_metadata_row last show ?thesis by blast
qed

theorem nonzero_code_ends_pass_and_writes_watermark_witness:
  "\<exists>out st. orders_pass_loop 3 demo_lib demo_settings refusing_upstream 1000 marked_session
       ''tok'' None True = (out, st) \<and>
     1 < length (sent st) \<and>
     refusing_upstream 1 (sent st ! 1) =
       Inr \<lparr>status_code = 200, json_body = Some (JDict refusal)\<rparr> \<and>
     ne_zero (get_none refusal ''code'') \<and>
     Suc 1 = length (sent st) \<and> synced_count st = 2 \<and>
     (\<exists>s'. sync_orders_task 3 demo_lib demo_settings refusing_upstream 1000 marked_session
            ''tok'' 30 None True = Some (Inr 2, s', sent st, pages_done st) \<and>
        (\<exists>m. sync_metadata (committed s') ''orders'' = Some m \<and>
             last_sync_time m = Some 1000 \<and> records_synced m = 2))"
proof -
  let ?r = "orders_pass_loop 3 demo_lib demo_settings refusing_upstream 1000 marked_session
       ''tok'' None True"
  have run: "?r = (fst ?r, snd ?r)" by simp
  have len: "1 < length (sent (snd ?r))" by code_simp
  have resp: "refusing_upstream 1 (sent (snd ?r) ! 1) =
       Inr \<lparr>status_code = 200, json_body = Some (JDict refusal)\<rparr>" by code_simp
  have code: "ne_zero (get_none refusal ''code'')" by code_simp
  have cnt: "synced_count (snd ?r) = 2" by code_simp
  from nonzero_code_ends_pass_and_writes_watermark [OF run len resp code, of 30]
  show ?thesis using run len resp code cnt by (metis (no_types, lifting))
qed

text \<open>
  The claim C8 as it stands fails: the second response of this pass has status 200 and the
  code 105, yet the pass returns 2 and the watermark has advanced from 500 to 1000.
\<close>

theorem nonzero_code_does_not_abort:
  "refusing_upstream 1
     (pass_requests (sync_orders_task 3 demo_lib demo_settings refusing_upstream 1000
        marked_session ''tok'' 30 None True) ! 1) =
     Inr \<lparr>status_code = 200, json_body = Some (JDict refusal)\<rparr> \<and>
   ne_zero (get_none refusal ''code'') \<and>
   pass_result (sync_orders_task 3 demo_lib demo_settings refusing_upstream 1000
        marked_session ''tok'' 30 None True) = Some (Inr 2) \<and>
   stored_watermark marked_session = Some demo_watermark \<and>
   map_option stored_watermark
     (pass_session (sync_orders_task 3 demo_lib demo_settings refusing_upstream 1000
        marked_session ''tok'' 30 None True)) =
     Some (Some (demo_watermark\<lparr>last_sync_time := Some 1000,
        last_record_time := Some (CDatetime 1000), records_synced := 2,
        updated_at := Some 1000\<rparr>))"
  by code_simp

section \<open>Pagination\<close>

text \<open>What \<open>get_products\<close> sends: one request, built without the page number.\<close>

lemma get_products_ignores_page_number:
  "get_products lib self send now page_size n status =
   get_products lib self send now page_size n' status"
  by (simp add: get_products_def)

lemma get_products_request:
  assumes "get_products lib self send now page_size n None = (r, reqs)"
  shows "\<exists>req. reqs = [req] \<and> r = received (send req) \<and>
           fst ` set (req_params req) \<subseteq> products_param_keys \<and>
           req_json req = Some (JDict [])"
proof -
  define P where "P = (let params0 = [(''page_size'', JInt (min page_size 100)),
                                      (''version'', JStr ''202502'')];
          params1 = (if shop_cipher self \<noteq> []
                     then dict_set params0 ''shop_cipher'' (JStr (shop_cipher self))
                     else params0)
      in if shop_id self \<noteq> []
         then dict_set params1 ''shop_id'' (JStr (shop_id self))
         else params1)"
  define req where "req = build_request lib self now ''POST'' ''/product/202502/products/search''
     (Some P) (Some (JDict []))"
  from assms have res: "reqs = [req]" "r = received (send req)"
    by (simp_all add: get_products_def make_request_def Let_def req_def P_def or_empty_def)
  have "fst ` set P \<subseteq> {''page_size'', ''version'', ''shop_cipher'', ''shop_id''}"
    by (auto simp: P_def Let_def keys_dict_set)
  with build_request_keys [of lib self now "''POST''" "''/product/202502/products/search''" P
      "Some (JDict [])"]
  have k: "fst ` set (req_params req) \<subseteq> products_param_keys"
    unfolding products_param_keys_def req_def by blast
  have j: "req_json req = Some (JDict [])"
    by (simp add: req_def build_request_json)
  from res k j show ?thesis by blast
qed

lemma save_products_frame:
  assumes "save_products lib now raws st = (r, st')"
  shows "page_number st' = page_number st \<and> product_requests st' = product_requests st \<and>
         product_calls st' = product_calls st"
  using assms
proof (induction raws arbitrary: st)
  case Nil
  then show ?case by simp
next
  case (Cons raw_product rest)
  show ?case
  proof (cases "transform_product lib raw_product")
    case (Inl e)
    with Cons.prems show ?thesis by simp
  next
    case (Inr pd)
    show ?thesis
    proof (cases "dict_get pd ''id''")
      case None
      with Inr Cons.prems show ?thesis by simp
    next
      case (Some pid)
      show ?thesis
      proof (cases "product_violation st")
        case True
        with Inr Some Cons.prems show ?thesis by simp
      next
        case False
        with Inr Some Cons.prems
        have "save_products lib now rest
                   (st\<lparr>product_db := upsert_product now pid pd (product_db st),
                       product_violation := refuses_product pid pd,
                       product_count := product_count st + 1\<rparr>) = (r, st')"
          by simp
        from Cons.IH [OF this] show ?thesis by simp
      qed
    qed
  qed
qed

text \<open>One round of the loop over products: one call with the page number, one request.\<close>

lemma products_round_trace:
  "case products_round lib client up now st of
     Stop out st' \<Rightarrow>
       product_calls st' = product_calls st @ [(100, page_number st)] \<and>
       (\<exists>req. product_requests st' = product_requests st @ [req] \<and>
          fst ` set (req_params req) \<subseteq> products_param_keys \<and>
          req_json req = Some (JDict []))
   | Continue st' \<Rightarrow>
       product_calls st' = product_calls st @ [(100, page_number st)] \<and>
       (\<exists>req. product_requests st' = product_requests st @ [req] \<and>
          fst ` set (req_params req) \<subseteq> products_param_keys \<and>
          req_json req = Some (JDict [])) \<and>
       page_number st' = page_number st + 1"
proof -
  obtain r reqs where g: "get_products lib client (up (length (product_requests st))) now 100
             (page_number st) None = (r, reqs)"
    by (cases "get_products lib client (up (length (product_requests st))) now 100
             (page_number st) None")
  from get_products_request [OF g] obtain req where req: "reqs = [req]"
    and K: "fst ` set (req_params req) \<subseteq> products_param_keys" "req_json req = Some (JDict [])"
    by blast
  let ?st1 = "st\<lparr>product_requests := product_requests st @ [req],
                 product_calls := product_calls st @ [(100, page_number st)]\<rparr>"
  have main: "case products_round lib client up now st of
     Stop out st' \<Rightarrow>
       product_calls st' = product_calls st @ [(100, page_number st)] \<and>
       product_requests st' = product_requests st @ [req]
   | Continue st' \<Rightarrow>
       product_calls st' = product_calls st @ [(100, page_number st)] \<and>
       product_requests st' = product_requests st @ [req] \<and>
       page_number st' = page_number st + 1"
  proof (cases "read_products r")
    case (Inl e)
    with g req show ?thesis by (simp add: products_round_def)
  next
    case (Inr page)
    show ?thesis
    proof (cases page)
      case None
      with Inr g req show ?thesis by (simp add: products_round_def)
    next
      case (Some p)
      obtain raws has_more where p: "p = (raws, has_more)" by (cases p)
      obtain r2 st2 where s: "save_products lib now raws ?st1 = (r2, st2)"
        by (cases "save_products lib now raws ?st1")
      note f = save_products_frame [OF s]
      from Inr Some p s f g req show ?thesis
        by (cases r2) (simp_all add: products_round_def Let_def)
    qed
  qed
  show ?thesis
  proof (cases "products_round lib client up now st")
    case (Stop out st')
    with main K show ?thesis by simp
  next
    case (Continue st')
    with main K show ?thesis by simp
  qed
qed

text \<open>
  The calls and requests of the loop over products: the call after \<open>j\<close> others has the
  page number \<open>j + 1\<close>.
\<close>

lemma products_loop_calls:
  assumes "page_number st = int (length (product_calls st)) + 1"
    and "length (product_requests st) = length (product_calls st)"
    and "\<forall>j < length (product_calls st). product_calls st ! j = (100, int j + 1)"
    and "\<forall>req \<in> set (product_requests st).
           fst ` set (req_params req) \<subseteq> products_param_keys \<and> req_json req = Some (JDict [])"
    and "products_loop n lib client up now st = (out, st')"
  shows "length (product_requests st') = length (product_calls st') \<and>
         (\<forall>j < length (product_calls st'). product_calls st' ! j = (100, int j + 1)) \<and>
         (\<forall>req \<in> set (product_requests st').
            fst ` set (req_params req) \<subseteq> products_param_keys \<and> req_json req = Some (JDict []))"
  using assms
proof (induction n arbitrary: st)
  case 0
  then show ?case by simp
next
  case (Suc n)
  note tr = products_round_trace [where lib = lib and client = client and up = up and now = now
    and st = st]
  have calls: "\<forall>j < length (product_calls st @ [(100, page_number st)]).
      (product_calls st @ [(100, page_number st)]) ! j = (100, int j + 1)"
    using Suc.prems(1,3) by (auto simp: nth_append less_Suc_eq)
  show ?case
  proof (cases "products_round lib client up now st")
    case (Stop out1 st1)
    with Suc.prems(5) have eq: "st1 = st'" by simp
    from tr Stop eq obtain req where r: "product_calls st' = product_calls st @ [(100, page_number st)]"
      "product_requests st' = product_requests st @ [req]"
      "fst ` set (req_params req) \<subseteq> products_param_keys" "req_json req = Some (JDict [])"
      by auto
    from r calls Suc.prems(2,4) show ?thesis by auto
  next
    case (Continue st1)
    with tr obtain req where r: "product_calls st1 = product_calls st @ [(100, page_number st)]"
      "product_requests st1 = product_requests st @ [req]"
      "fst ` set (req_params req) \<subseteq> products_param_keys" "req_json req = Some (JDict [])"
      "page_number st1 = page_number st + 1"
      by auto
    from Suc.prems(5) Continue have run: "products_loop n lib client up now st1 = (out, st')"
      by simp
    have a: "page_number st1 = int (length (product_calls st1)) + 1"
      using r(1,5) Suc.prems(1) by simp
    have b: "length (product_requests st1) = length (product_calls st1)"
      using r(1,2) Suc.prems(2) by simp
    have c: "\<forall>j < length (product_calls st1). product_calls st1 ! j = (100, int j + 1)"
      using calls r(1) by simp
    have d: "\<forall>req \<in> set (product_requests st1).
           fst ` set (req_params req) \<subseteq> products_param_keys \<and> req_json req = Some (JDict [])"
      using r(2,3,4) Suc.prems(4) by auto
    from Suc.IH [OF a b c d run] show ?thesis .
  qed
qed

text \<open>
  C9, as amended. In a pass over orders, however far it has run, the first request carries
  no \<open>page_token\<close>, every later request carries as \<open>page_token\<close> the continuation token
  of the response to the request before it, and no request has a parameter beyond those of
  the orders search, none of which is a page number, or anything in its body. The pass
  over products counts its pages instead: however far it has run, each call of
  \<open>get_products\<close> is one request, the call after \<open>j\<close> others is made with the page number
  \<open>j + 1\<close>, and no request has a parameter beyond those of the products search, none of
  which is a continuation token, or anything in its body.
\<close>

theorem orders_page_by_token_products_by_count:
  assumes "orders_pass_loop fuel lib cfg up now s token max_orders force_full_sync = (out, st)"
    and "products_pass_loop fuel' lib' cfg' up' now' s' token' = (out', pst)"
  shows "(sent st \<noteq> [] \<longrightarrow> dict_get (req_params (hd (sent st))) ''page_token'' = None) \<and>
         (\<forall>k. Suc k < length (sent st) \<longrightarrow>
            truthy (next_page_token (up k (sent st ! k))) \<and>
            dict_get (req_params (sent st ! Suc k)) ''page_token'' =
              Some (next_page_token (up k (sent st ! k)))) \<and>
         (\<forall>req \<in> set (sent st).
            fst ` set (req_params req) \<subseteq> orders_param_keys \<and> req_json req = Some (JDict [])) \<and>
         ''page_number'' \<notin> orders_param_keys \<and>
         length (product_requests pst) = length (product_calls pst) \<and>
         (\<forall>j < length (product_calls pst). product_calls pst ! j = (100, int j + 1)) \<and>
         (\<forall>req \<in> set (product_requests pst).
            fst ` set (req_params req) \<subseteq> products_param_keys \<and> req_json req = Some (JDict [])) \<and>
         ''page_token'' \<notin> products_param_keys"
proof -
  note c = chained_nth [OF conjunct1 [OF orders_pass_loop_trace [OF assms(1)]]]
  have n: "''page_number'' \<notin> orders_param_keys" by (simp add: orders_param_keys_def)
  have t: "''page_token'' \<notin> products_param_keys" by (simp add: products_param_keys_def)
  have p: "length (product_requests pst) = length (product_calls pst) \<and>
         (\<forall>j < length (product_calls pst). product_calls pst ! j = (100, int j + 1)) \<and>
         (\<forall>req \<in> set (product_requests pst).
            fst ` set (req_params req) \<subseteq> products_param_keys \<and> req_json req = Some (JDict []))"
    by (rule products_loop_calls [OF _ _ _ _ assms(2) [unfolded products_pass_loop_def]])
      simp_all
  from c n t p show ?thesis by simp
qed

theorem orders_page_by_token_products_by_count_witness:
  "\<exists>out st out' pst.
     orders_pass_loop 3 demo_lib demo_settings demo_upstream 1000 empty_session
       ''tok'' None False = (out, st) \<and>
     products_pass_loop 3 demo_lib demo_settings product_upstream 1000 empty_session ''tok'' =
       (out', pst) \<and>
     out = Left \<and> length (sent st) = 2 \<and>
     dict_get (req_params (hd (sent st))) ''page_token'' = None \<and>
     next_page_token (demo_upstream 0 (sent st ! 0)) = JStr ''abc'' \<and>
     dict_get (req_params (sent st ! Suc 0)) ''page_token'' = Some (JStr ''abc'') \<and>
     map req_json (sent st) = [Some (JDict []), Some (JDict [])] \<and>
     (\<forall>req \<in> set (sent st).
        fst ` set (req_params req) \<subseteq> orders_param_keys \<and> req_json req = Some (JDict [])) \<and>
     out' = Left \<and> product_calls pst = [(100, 1), (100, 2)] \<and>
     length (product_requests pst) = 2 \<and>
     (\<forall>j < length (product_calls pst). product_calls pst ! j = (100, int j + 1)) \<and>
     (\<forall>req \<in> set (product_requests pst).
        fst ` set (req_params req) \<subseteq> products_param_keys \<and> req_json req = Some (JDict []))"
proof -
  let ?r = "orders_pass_loop 3 demo_lib demo_settings demo_upstream 1000 empty_session
       ''tok'' None False"
  let ?p = "products_pass_loop 3 demo_lib demo_settings product_upstream 1000 empty_session
       ''tok''"
  have run: "?r = (fst ?r, snd ?r)" by simp
  have run': "?p = (fst ?p, snd ?p)" by simp
  have out: "fst ?r = Left" by code_simp
  have len: "length (sent (snd ?r)) = 2" by code_simp
  have t0: "dict_get (req_params (hd (sent (snd ?r)))) ''page_token'' = None" by code_simp
  have n0: "next_page_token (demo_upstream 0 (sent (snd ?r) ! 0)) = JStr ''abc''" by code_simp
  have t1: "dict_get (req_params (sent (snd ?r) ! Suc 0)) ''page_token'' = Some (JStr ''abc'')"
    by code_simp
  have js: "map req_json (sent (snd ?r)) = [Some (JDict []), Some (JDict [])]" by code_simp
  have out': "fst ?p = Left" by code_simp
  have calls: "product_calls (snd ?p) = [(100, 1), (100, 2)]" by code_simp
  from orders_page_by_token_products_by_count [OF run run']
  have a: "\<forall>req \<in> set (sent (snd ?r)).
        fst ` set (req_params req) \<subseteq> orders_param_keys \<and> req_json req = Some (JDict [])"
    and b: "length (product_requests (snd ?p)) = length (product_calls (snd ?p))"
    and c: "\<forall>j < length (product_calls (snd ?p)). product_calls (snd ?p) ! j = (100, int j + 1)"
    and d: "\<forall>req \<in> set (product_requests (snd ?p)).
        fst ` set (req_params req) \<subseteq> products_param_keys \<and> req_json req = Some (JDict [])"
    by blast+
  from b calls have e: "length (product_requests (snd ?p)) = 2" by simp
  show ?thesis
    apply (rule exI [of _ "fst ?r"])
    apply (rule exI [of _ "snd ?r"])
    apply (rule exI [of _ "fst ?p"])
    apply (rule exI [of _ "snd ?p"])
    using run run' out len t0 n0 t1 js a out' calls e c d by simp
qed

text \<open>
  The claim C9 as it stands fails for the pass over products: \<open>sync_products_task\<close> calls
  \<open>get_products\<close> with the page numbers 1 and 2, and its requests carry no continuation
  token.
\<close>

theorem products_pass_counts_pages:
  "products_result (sync_products_task 3 demo_lib demo_settings product_upstream 1000
      empty_session ''tok'') = Some (Inr 1) \<and>
   products_calls (sync_products_task 3 demo_lib demo_settings product_upstream 1000
      empty_session ''tok'') = [(100, 1), (100, 2)] \<and>
   map page_token_of (products_requests (sync_products_task 3 demo_lib demo_settings
      product_upstream 1000 empty_session ''tok'')) = [None, None]"
  by code_simp

section \<open>The time of the last record\<close>

text \<open>
  A pass that returns writes the time of the pass as \<open>last_record_time\<close>, whatever the
  orders it has stored: the loop has found no time in any of them.
\<close>

lemma orders_pass_loop_most_recent:
  assumes "orders_pass_loop fuel lib cfg up now s token max_orders force_full_sync = (out, st)"
  shows "most_recent_order_time st = None"
proof -
  obtain start_time end_time full
    where "choose_window now force_full_sync s = (start_time, end_time, full)"
    by (cases "choose_window now force_full_sync s")
  with assms have "orders_loop fuel lib (init_client cfg (Some token)) up now start_time end_time
            max_orders (pass_init s) = (out, st)"
    by (simp add: orders_pass_loop_def)
  from orders_loop_most_recent [OF this] show ?thesis by (simp add: pass_init_def)
qed

lemma returned_pass_record_time:
  assumes "sync_orders_task fuel lib cfg up now s token days_back max_orders force_full_sync =
             Some (Inr n, s1, q1, p1)"
  shows "\<exists>m. sync_metadata (committed s1) ''orders'' = Some m \<and>
           last_record_time m = Some (CDatetime now)"
proof -
  obtain out st where l: "orders_pass_loop fuel lib cfg up now s token max_orders force_full_sync
      = (out, st)"
    by (cases "orders_pass_loop fuel lib cfg up now s token max_orders force_full_sync")
  note mr = orders_pass_loop_most_recent [OF l]
  from assms l have "s1 = update_sync_metadata lib now
      (snd (snd (choose_window now force_full_sync s))) (synced_count st)
      (most_recent_order_time st) (db st)"
    by (cases out) (auto simp: sync_orders_task_def finish_pass_def split: if_splits)
  with mr update_sync_metadata_row [of lib now "snd (snd (choose_window now force_full_sync s))"
      "synced_count st" None "db st"]
  show ?thesis by (auto simp: record_time_def)
qed

text \<open>
  C7. A forced full pass at time 1000 over an upstream with three orders, all created at
  time 5, returns 3 and writes the watermark with \<open>last_record_time\<close> 1000. A second forced
  full pass at time 2000 over the same upstream, which has nothing new, returns 3 and
  leaves the same three orders stored, but writes \<open>last_record_time\<close> 2000: the time of the
  last record moves with the clock although no record has arrived, and at neither pass is
  it the time of an order.
\<close>

theorem repeated_pass_moves_last_record_time:
  "pass_result (sync_orders_task 3 demo_lib demo_settings demo_upstream 1000 empty_session
        ''tok'' 30 None True) = Some (Inr 3) \<and>
   pass_order_times (sync_orders_task 3 demo_lib demo_settings demo_upstream 1000 empty_session
        ''tok'' 30 None True) = [Some (CDatetime 5), Some (CDatetime 5), Some (CDatetime 5)] \<and>
   map_option stored_watermark
     (pass_session (sync_orders_task 3 demo_lib demo_settings demo_upstream 1000 empty_session
        ''tok'' 30 None True)) =
     Some (Some \<lparr>sync_type = ''orders'', last_sync_time = Some 1000,
        last_record_time = Some (CDatetime 1000), records_synced = 3, is_full_sync = 1,
        created_at = Some 1000, updated_at = Some 1000\<rparr>) \<and>
   pass_result (second_pass 3 demo_lib demo_settings demo_upstream 1000 demo_upstream 2000
        empty_session ''tok'' 30 None True True) = Some (Inr 3) \<and>
   pass_order_times (second_pass 3 demo_lib demo_settings demo_upstream 1000 demo_upstream 2000
        empty_session ''tok'' 30 None True True) =
     [Some (CDatetime 5), Some (CDatetime 5), Some (CDatetime 5)] \<and>
   map_option stored_watermark
     (pass_session (second_pass 3 demo_lib demo_settings demo_upstream 1000 demo_upstream 2000
        empty_session ''tok'' 30 None True True)) =
     Some (Some \<lparr>sync_type = ''orders'', last_sync_time = Some 2000,
        last_record_time = Some (CDatetime 2000), records_synced = 3, is_full_sync = 1,
        created_at = Some 1000, updated_at = Some 2000\<rparr>)"
  by code_simp

end
